theory Spec2Isabelle
  imports Main "HOL-Library.AList"
begin

section \<open>Values of the source language\<close>

text \<open>
  An optional JavaScript string is a \<open>string option\<close>: \<open>None\<close> is
  \<^verbatim>\<open>undefined\<close> (or \<^verbatim>\<open>null\<close>).  The tests \<^verbatim>\<open>if (x)\<close> and \<^verbatim>\<open>!x\<close> of the source
  read its truthiness: \<^verbatim>\<open>undefined\<close> and the empty string are falsy.
\<close>

definition truthy :: "string option \<Rightarrow> bool" where
  "truthy v = (case v of None \<Rightarrow> False | Some s \<Rightarrow> s \<noteq> [])"

text \<open>
  The \<^verbatim>\<open>oauthToken\<close> argument is an object
  \<^verbatim>\<open>{ refreshToken?: string; accessToken?: string }\<close>.  A key can be missing, or present
  with the value \<^verbatim>\<open>undefined\<close> (what \<^verbatim>\<open>{ accessToken, refreshToken }\<close> in auth.ts builds
  from an undefined variable), or present with a string.  lodash's \<^verbatim>\<open>_.isEmpty\<close> looks
  at the keys only, member access at the value only.
\<close>

datatype token_prop = NoKey | Key "string option"

fun prop_value :: "token_prop \<Rightarrow> string option" where
  "prop_value NoKey = None"
| "prop_value (Key v) = v"

record oauth_token =
  accessToken :: token_prop
  refreshToken :: token_prop

definition isEmpty :: "oauth_token \<Rightarrow> bool" where
  "isEmpty t = (accessToken t = NoKey \<and> refreshToken t = NoKey)"

text \<open>
  The \<^verbatim>\<open>type\<close> tag.  The schema declares the paths \<^verbatim>\<open>googleId\<close> and \<^verbatim>\<open>microsoftId\<close>
  only, and auth.ts calls with \<^verbatim>\<open>'google'\<close> and \<^verbatim>\<open>'microsoft'\<close> only.
\<close>

datatype provider = Google | Microsoft

section \<open>The User document (mongoSchema, User.ts lines 28-119)\<close>

text \<open>
  \<^verbatim>\<open>oAuthAccessToken\<close> and \<^verbatim>\<open>oAuthRefreshToken\<close> are maps from the provider tag to a
  token, under the field-encryption plugin (lines 548-550).  The plugin is a library;
  its cipher is modelled symbolically.  A field is unset (\<^verbatim>\<open>default: undefined\<close>), or
  holds the map in the clear, or holds it encrypted under \<^verbatim>\<open>ENCRYPT_SECRET\<close> (the
  plugin's marker \<^verbatim>\<open>__enc_<field>\<close> is then true).
\<close>

type_synonym token_map = "(provider \<times> string) list"

datatype token_field = Unset | Plain token_map | Cipher token_map

record stripe_customer =
  sc_id :: string
  sc_object :: string
  sc_created :: nat
  sc_currency :: string
  sc_default_source :: string
  sc_description :: string

record stripe_card =
  card_id :: string
  card_object :: string
  card_brand :: string
  card_funding :: string
  card_country :: string
  card_last4 :: string
  card_exp_month :: nat
  card_exp_year :: nat

record stripe_invoice =
  inv_id :: string
  inv_object :: string
  inv_amount_paid :: nat
  inv_date :: nat
  inv_customer :: string
  inv_subscription :: string
  inv_hosted_invoice_url :: string
  inv_billing :: string
  inv_paid :: bool
  inv_number :: string
  inv_teamId :: string
  inv_teamName :: string

record stripe_invoices =
  list_object :: string
  list_has_more :: bool
  list_data :: "stripe_invoice list"

record user =
  uid :: string
  googleId :: "string option"
  microsoftId :: "string option"
  oAuthAccessToken :: token_field
  oAuthRefreshToken :: token_field
  slug :: string
  createdAt :: nat
  email :: string
  defaultTeamSlug :: string
  isAdmin :: bool
  displayName :: "string option"
  avatarUrl :: "string option"
  stripeCustomer :: "stripe_customer option"
  stripeCard :: "stripe_card option"
  hasCardInformation :: bool
  stripeListOfInvoices :: "stripe_invoices option"
  darkTheme :: "bool option"

text \<open>\<open>uid\<close> is the document's \<^verbatim>\<open>_id\<close>; \<open>createdAt\<close> is a timestamp.\<close>

subsection \<open>The collaborators' documents\<close>

text \<open>
  Team, Invitation and EmailTemplate are models of other files.  Each is given the
  fields this file reads: \<^verbatim>\<open>Team.findById(teamId).select('memberIds')\<close>,
  \<^verbatim>\<open>Invitation.countDocuments({ email })\<close>, \<^verbatim>\<open>EmailTemplate.findOne({ name })\<close> and the
  \<^verbatim>\<open>subject\<close> and \<^verbatim>\<open>message\<close> of a rendered template.
\<close>

record team =
  team_id :: string
  memberIds :: "string list"

record invitation =
  invitation_email :: string
  invitation_teamId :: string

record email_template =
  template_name :: string
  template_subject :: string
  template_message :: string

record mail =
  mail_from :: string
  mail_to :: "string list"
  mail_subject :: string
  mail_body :: string

section \<open>Errors, effects and the state\<close>

datatype error =
    OauthIdRequired
  | UserAlreadyExists
  | WelcomeTemplateNotFound
  | BadData
  | TeamNotFound
  | ValidationError
  | DuplicateKey
  | SendEmailError
  | MailchimpError

text \<open>
  \<open>OauthIdRequired\<close> is \<^verbatim>\<open>'oauthId is required'\<close>, \<open>UserAlreadyExists\<close> is
  \<^verbatim>\<open>'User already exists'\<close>, \<open>WelcomeTemplateNotFound\<close> is
  \<^verbatim>\<open>'welcome Email template not found'\<close>, \<open>BadData\<close> is \<^verbatim>\<open>'Bad data'\<close>, \<open>TeamNotFound\<close> is
  \<^verbatim>\<open>'Team not found'\<close>.  \<open>ValidationError\<close> and \<open>DuplicateKey\<close> are the rejections of a
  write by the schema (\<^verbatim>\<open>required: true\<close>, \<^verbatim>\<open>unique: true\<close>); \<open>SendEmailError\<close> and
  \<open>MailchimpError\<close> are what \<^verbatim>\<open>sendEmail\<close> and \<^verbatim>\<open>subscribe\<close> reject with.

  The calls that leave the process are recorded in order.
\<close>

datatype effect =
    SendEmail mail
  | Subscribe string string
  | LogError string

record world =
  users :: "user list"
  teams :: "team list"
  invitations :: "invitation list"
  emailTemplates :: "email_template list"
  effects :: "effect list"

text \<open>
  What the file imports and does not define is a parameter: the constants of
  \<^verbatim>\<open>../consts\<close>, the clock, the \<^verbatim>\<open>_id\<close> that \<^verbatim>\<open>new User(...)\<close> draws,
  \<^verbatim>\<open>generateSlug\<close> of \<^verbatim>\<open>../utils/slugify\<close> (given the collection it queries and the
  name), the renderer \<^verbatim>\<open>getEmailTemplate\<close> (name, user name, template; it yields subject
  and message), and whether \<^verbatim>\<open>sendEmail\<close> and \<^verbatim>\<open>subscribe\<close> reject.
\<close>

record env =
  GOOGLE_CLIENTID :: string
  MICROSOFT_CLIENTID :: string
  EMAIL_SUPPORT_FROM_ADDRESS :: string
  now :: nat
  newObjectId :: "user list \<Rightarrow> string"
  generateSlug :: "user list \<Rightarrow> string \<Rightarrow> string"
  getEmailTemplate :: "string \<Rightarrow> string \<Rightarrow> email_template \<Rightarrow> string \<times> string"
  sendEmailFails :: "mail \<Rightarrow> bool"
  subscribeFails :: "string \<Rightarrow> string \<Rightarrow> bool"

section \<open>The field-encryption plugin\<close>

text \<open>
  The plugin is installed when a Google or a Microsoft client id is configured (line
  534), which is also when auth.ts sets up the strategies that call \<^verbatim>\<open>signInOrSignUp\<close>.
  It encrypts the two token fields in its pre-save hook (on the document being saved,
  which stays encrypted in memory), decrypts them when a document is loaded by a query
  that is not lean, and gives every document \<^verbatim>\<open>decryptFieldsSync\<close> and
  \<^verbatim>\<open>stripEncryptionFieldMarkers\<close>.  Stripping the markers of a field that is still
  encrypted removes the ciphertext with them.
\<close>

fun encryptField :: "token_field \<Rightarrow> token_field" where
  "encryptField (Plain m) = Cipher m"
| "encryptField Unset = Unset"
| "encryptField (Cipher m) = Cipher m"

fun decryptField :: "token_field \<Rightarrow> token_field" where
  "decryptField (Cipher m) = Plain m"
| "decryptField Unset = Unset"
| "decryptField (Plain m) = Plain m"

fun stripField :: "token_field \<Rightarrow> token_field" where
  "stripField (Cipher m) = Unset"
| "stripField Unset = Unset"
| "stripField (Plain m) = Plain m"

definition encryptFields :: "user \<Rightarrow> user" where
  "encryptFields u = u\<lparr>oAuthAccessToken := encryptField (oAuthAccessToken u),
                       oAuthRefreshToken := encryptField (oAuthRefreshToken u)\<rparr>"

definition decryptFieldsSync :: "user \<Rightarrow> user" where
  "decryptFieldsSync u = u\<lparr>oAuthAccessToken := decryptField (oAuthAccessToken u),
                           oAuthRefreshToken := decryptField (oAuthRefreshToken u)\<rparr>"

definition stripEncryptionFieldMarkers :: "user \<Rightarrow> user" where
  "stripEncryptionFieldMarkers u = u\<lparr>oAuthAccessToken := stripField (oAuthAccessToken u),
                                     oAuthRefreshToken := stripField (oAuthRefreshToken u)\<rparr>"

section \<open>The collection\<close>

text \<open>
  The collection is the list of its documents in insertion order, as they are at rest.
  \<^verbatim>\<open>findOne\<close> yields one document that matches (the database does not say which when
  several do; the model takes the first); a query that is not lean hydrates it, which
  runs the plugin's decryption.
\<close>

definition findOne :: "(user \<Rightarrow> bool) \<Rightarrow> user list \<Rightarrow> user option" where
  "findOne P us = map_option decryptFieldsSync (find P us)"

definition findOneLean :: "(user \<Rightarrow> bool) \<Rightarrow> user list \<Rightarrow> user option" where
  "findOneLean P us = find P us"

text \<open>
  A write is checked against the schema: \<^verbatim>\<open>slug\<close>, \<^verbatim>\<open>createdAt\<close> and \<^verbatim>\<open>email\<close> are
  required (a required string must not be empty; \<open>createdAt\<close> is always there in a
  \<^typ>\<open>user\<close>), \<^verbatim>\<open>email\<close> and \<^verbatim>\<open>slug\<close> are unique, \<^verbatim>\<open>googleId\<close> and \<^verbatim>\<open>microsoftId\<close> are
  unique among the documents that have them (\<^verbatim>\<open>sparse\<close>), and \<^verbatim>\<open>_id\<close> is unique.
\<close>

definition required_ok :: "user \<Rightarrow> bool" where
  "required_ok u = (slug u \<noteq> [] \<and> email u \<noteq> [])"

definition collides :: "user \<Rightarrow> user \<Rightarrow> bool" where
  "collides v u = (email v = email u \<or> slug v = slug u
                   \<or> (googleId u \<noteq> None \<and> googleId v = googleId u)
                   \<or> (microsoftId u \<noteq> None \<and> microsoftId v = microsoftId u))"

definition unique_ok :: "user list \<Rightarrow> user \<Rightarrow> bool" where
  "unique_ok others u = list_all (\<lambda>v. \<not> collides v u) others"

text \<open>
  \<^verbatim>\<open>doc.save()\<close>: the pre-save hook encrypts, then a new document is inserted and a
  loaded one replaces the stored document of the same \<^verbatim>\<open>_id\<close>.  A rejected write
  leaves the collection as it was.
\<close>

definition save :: "bool \<Rightarrow> user list \<Rightarrow> user \<Rightarrow> error + (user \<times> user list)" where
  "save isNew us u =
     (let d = encryptFields u in
      if \<not> required_ok d then Inl ValidationError
      else if isNew then
        (if uid d \<in> set (map uid us) \<or> \<not> unique_ok us d then Inl DuplicateKey
         else Inr (d, us @ [d]))
      else
        (if \<not> unique_ok (filter (\<lambda>v. uid v \<noteq> uid d) us) d then Inl DuplicateKey
         else Inr (d, map (\<lambda>v. if uid v = uid d then d else v) us)))"

text \<open>
  \<^verbatim>\<open>new User({...})\<close> and \<^verbatim>\<open>this.create({...})\<close> build a document from the fields
  given; the others take the schema's defaults.
\<close>

definition new_User ::
  "string \<Rightarrow> nat \<Rightarrow> string \<Rightarrow> string option \<Rightarrow> string option \<Rightarrow> string \<Rightarrow> string \<Rightarrow> user" where
  "new_User i created e dn av sl dts =
     \<lparr>uid = i, googleId = None, microsoftId = None,
      oAuthAccessToken = Unset, oAuthRefreshToken = Unset,
      slug = sl, createdAt = created, email = e, defaultTeamSlug = dts, isAdmin = False,
      displayName = dn, avatarUrl = av,
      stripeCustomer = None, stripeCard = None, hasCardInformation = False,
      stripeListOfInvoices = None, darkTheme = None\<rparr>"

subsection \<open>The paths built from the type tag\<close>

text \<open>
  \<^verbatim>\<open>oAuthFields.Id\<close> is \<^verbatim>\<open>`${type}Id`\<close>, \<^verbatim>\<open>oAuthFields.AccessToken\<close> is
  \<^verbatim>\<open>`oAuthAccessToken.${type}`\<close>, \<^verbatim>\<open>oAuthFields.RefreshToken\<close> is
  \<^verbatim>\<open>`oAuthRefreshToken.${type}`\<close>.  Setting a key of a token map that is not there creates
  the map; the existing-user branch also resets the encryption marker, so that the field
  is in the clear until the next save.
\<close>

fun getId :: "provider \<Rightarrow> user \<Rightarrow> string option" where
  "getId Google u = googleId u"
| "getId Microsoft u = microsoftId u"

fun setId :: "provider \<Rightarrow> string \<Rightarrow> user \<Rightarrow> user" where
  "setId Google v u = u\<lparr>googleId := Some v\<rparr>"
| "setId Microsoft v u = u\<lparr>microsoftId := Some v\<rparr>"

fun setToken :: "provider \<Rightarrow> string \<Rightarrow> token_field \<Rightarrow> token_field" where
  "setToken ty v (Plain m) = Plain (AList.update ty v m)"
| "setToken ty v Unset = Plain [(ty, v)]"
| "setToken ty v (Cipher m) = Plain [(ty, v)]"

definition setAccessToken :: "provider \<Rightarrow> string \<Rightarrow> user \<Rightarrow> user" where
  "setAccessToken ty v u = u\<lparr>oAuthAccessToken := setToken ty v (oAuthAccessToken u)\<rparr>"

definition setRefreshToken :: "provider \<Rightarrow> string \<Rightarrow> user \<Rightarrow> user" where
  "setRefreshToken ty v u = u\<lparr>oAuthRefreshToken := setToken ty v (oAuthRefreshToken u)\<rparr>"

text \<open>\<^verbatim>\<open>if (v) { doc.set(path, v) }\<close>\<close>

definition whenTruthy :: "string option \<Rightarrow> (string \<Rightarrow> 'a \<Rightarrow> 'a) \<Rightarrow> 'a \<Rightarrow> 'a" where
  "whenTruthy v f x = (case v of None \<Rightarrow> x | Some s \<Rightarrow> if s = [] then x else f s x)"

section \<open>The welcome email and the mailing list (lines 395-424 and 451-480)\<close>

definition hasInvitation :: "world \<Rightarrow> string \<Rightarrow> bool" where
  "hasInvitation w e = (length (filter (\<lambda>i. invitation_email i = e) (invitations w)) > 0)"

definition sendEmail :: "env \<Rightarrow> world \<Rightarrow> mail \<Rightarrow> (error + unit) \<times> world" where
  "sendEmail env w m =
     (if sendEmailFails env m then Inl SendEmailError else Inr (),
      w\<lparr>effects := effects w @ [SendEmail m]\<rparr>)"

definition subscribe :: "env \<Rightarrow> world \<Rightarrow> string \<Rightarrow> string \<Rightarrow> (error + unit) \<times> world" where
  "subscribe env w e listName =
     (if subscribeFails env e listName then Inl MailchimpError else Inr (),
      w\<lparr>effects := effects w @ [Subscribe e listName]\<rparr>)"

definition logger_error :: "world \<Rightarrow> string \<Rightarrow> world" where
  "logger_error w msg = w\<lparr>effects := effects w @ [LogError msg]\<rparr>"

text \<open>
  The two functions run the same statements after the new document is saved, with the
  display name or the email as \<^verbatim>\<open>userName\<close>.
\<close>

text \<open>The query \<^verbatim>\<open>{ name: 'welcome' }\<close>.\<close>

definition templateNamed :: "string \<Rightarrow> email_template \<Rightarrow> bool" where
  "templateNamed n t = (template_name t = n)"

definition welcomeMail :: "env \<Rightarrow> string \<Rightarrow> string \<times> string \<Rightarrow> mail" where
  "welcomeMail env e template =
     \<lparr>mail_from = ''Kelly from async-await.com <'' @ EMAIL_SUPPORT_FROM_ADDRESS env @ ''>'',
      mail_to = [e],
      mail_subject = fst template,
      mail_body = snd template\<rparr>"

definition sendWelcome :: "env \<Rightarrow> world \<Rightarrow> string \<Rightarrow> string \<Rightarrow> (error + unit) \<times> world" where
  "sendWelcome env w e userName =
     (let hasInv = hasInvitation w e in
      case find (templateNamed ''welcome'') (emailTemplates w) of
        None \<Rightarrow> (Inl WelcomeTemplateNotFound, w)
      | Some emailTemplate \<Rightarrow>
          let template = getEmailTemplate env ''welcome'' userName emailTemplate;
              w1 = (if \<not> hasInv then
                      (case sendEmail env w (welcomeMail env e template) of
                         (Inl err, w') \<Rightarrow> logger_error w' ''Email sending error:''
                       | (Inr _, w') \<Rightarrow> w')
                    else w);
              w2 = (case subscribe env w1 e ''signups'' of
                      (Inl err, w') \<Rightarrow> logger_error w' ''Mailchimp error:''
                    | (Inr _, w') \<Rightarrow> w')
          in (Inr (), w2))"

section \<open>signInOrSignUp (lines 325-430)\<close>

text \<open>The query \<^verbatim>\<open>{ $or: [{ email }, { [oAuthFields.Id]: oauthId }] }\<close>.\<close>

definition matches :: "provider \<Rightarrow> string \<Rightarrow> string \<Rightarrow> user \<Rightarrow> bool" where
  "matches ty e oid u = (email u = e \<or> getId ty u = Some oid)"

definition signInOrSignUp ::
  "env \<Rightarrow> world \<Rightarrow> provider \<Rightarrow> string option \<Rightarrow> string \<Rightarrow> oauth_token \<Rightarrow> string
     \<Rightarrow> string option \<Rightarrow> (error + user) \<times> world" where
  "signInOrSignUp env w ty oauthId e oauthToken dn av =
     (case oauthId of
        None \<Rightarrow> (Inl OauthIdRequired, w)
      | Some oid \<Rightarrow>
        if oid = [] then (Inl OauthIdRequired, w)
        else
          (case findOne (matches ty e oid) (users w) of
             Some user \<Rightarrow>
               if isEmpty oauthToken then (Inr user, w)
               else
                 let u1 = (if \<not> truthy (getId ty user) then setId ty oid user else user);
                     u2 = whenTruthy (prop_value (accessToken oauthToken)) (setAccessToken ty) u1;
                     u3 = whenTruthy (prop_value (refreshToken oauthToken)) (setRefreshToken ty) u2
                 in (case save False (users w) u3 of
                       Inl err \<Rightarrow> (Inl err, w)
                     | Inr (d, us') \<Rightarrow>
                         (Inr (stripEncryptionFieldMarkers (decryptFieldsSync d)),
                          w\<lparr>users := us'\<rparr>))
           | None \<Rightarrow>
               let sl = generateSlug env (users w) dn;
                   newUser = new_User (newObjectId env (users w)) (now env) e (Some dn) av sl [];
                   n1 = setId ty oid newUser;
                   n2 = whenTruthy (prop_value (accessToken oauthToken)) (setAccessToken ty) n1;
                   n3 = whenTruthy (prop_value (refreshToken oauthToken)) (setRefreshToken ty) n2
               in (case save True (users w) n3 of
                     Inl err \<Rightarrow> (Inl err, w)
                   | Inr (d, us') \<Rightarrow>
                       (case sendWelcome env (w\<lparr>users := us'\<rparr>) e dn of
                          (Inl err, w') \<Rightarrow> (Inl err, w')
                        | (Inr _, w') \<Rightarrow>
                            (Inr (stripEncryptionFieldMarkers (decryptFieldsSync d)), w')))))"

section \<open>signUpByEmail (lines 432-483)\<close>

text \<open>The query \<^verbatim>\<open>{ email }\<close>.\<close>

definition hasEmail :: "string \<Rightarrow> user \<Rightarrow> bool" where
  "hasEmail e u = (email u = e)"

record public_user =
  pub_id :: string
  pub_displayName :: "string option"
  pub_email :: string
  pub_avatarUrl :: "string option"
  pub_slug :: string
  pub_isMicrosoftUser :: "bool option"
  pub_isGoogleUser :: "bool option"
  pub_defaultTeamSlug :: string
  pub_hasCardInformation :: bool
  pub_stripeCustomer :: "stripe_customer option"
  pub_stripeCard :: "stripe_card option"
  pub_stripeListOfInvoices :: "stripe_invoices option"
  pub_darkTheme :: "bool option"

text \<open>
  The virtuals of lines 537-546 exist when the provider's client id is configured, and
  read \<^verbatim>\<open>this.googleId && this.googleId.length > 0\<close>.
\<close>

definition isProviderUser :: "string \<Rightarrow> string option \<Rightarrow> bool option" where
  "isProviderUser clientId i =
     (if clientId = [] then None else case i of None \<Rightarrow> None | Some s \<Rightarrow> Some (s \<noteq> []))"

text \<open>\<^verbatim>\<open>_.pick(newUser, this.publicFields())\<close>; \<^verbatim>\<open>_id\<close> and \<^verbatim>\<open>id\<close> are both \<open>pub_id\<close>.\<close>

definition pick_publicFields :: "env \<Rightarrow> user \<Rightarrow> public_user" where
  "pick_publicFields env u =
     \<lparr>pub_id = uid u, pub_displayName = displayName u, pub_email = email u,
      pub_avatarUrl = avatarUrl u, pub_slug = slug u,
      pub_isMicrosoftUser = isProviderUser (MICROSOFT_CLIENTID env) (microsoftId u),
      pub_isGoogleUser = isProviderUser (GOOGLE_CLIENTID env) (googleId u),
      pub_defaultTeamSlug = defaultTeamSlug u,
      pub_hasCardInformation = hasCardInformation u,
      pub_stripeCustomer = stripeCustomer u, pub_stripeCard = stripeCard u,
      pub_stripeListOfInvoices = stripeListOfInvoices u, pub_darkTheme = darkTheme u\<rparr>"

definition signUpByEmail ::
  "env \<Rightarrow> world \<Rightarrow> string \<Rightarrow> string \<Rightarrow> (error + public_user) \<times> world" where
  "signUpByEmail env w i e =
     (case findOneLean (hasEmail e) (users w) of
        Some user \<Rightarrow> (Inl UserAlreadyExists, w)
      | None \<Rightarrow>
          let sl = generateSlug env (users w) e in
          (case save True (users w) (new_User i (now env) e None None sl []) of
             Inl err \<Rightarrow> (Inl err, w)
           | Inr (newUser, us') \<Rightarrow>
               (case sendWelcome env (w\<lparr>users := us'\<rparr>) e e of
                  (Inl err, w') \<Rightarrow> (Inl err, w')
                | (Inr _, w') \<Rightarrow> (Inr (pick_publicFields env newUser), w'))))"

section \<open>checkPermissionAndGetTeam (lines 513-527)\<close>

fun indexOf :: "'a list \<Rightarrow> 'a \<Rightarrow> int" where
  "indexOf [] x = - 1"
| "indexOf (y # ys) x =
     (if y = x then 0 else (let i = indexOf ys x in if i = - 1 then - 1 else i + 1))"

definition checkPermissionAndGetTeam ::
  "world \<Rightarrow> string option \<Rightarrow> string option \<Rightarrow> error + team" where
  "checkPermissionAndGetTeam w userId teamId =
     (case (userId, teamId) of
        (Some u, Some t) \<Rightarrow>
          if u = [] \<or> t = [] then Inl BadData
          else
            (case find (\<lambda>x. team_id x = t) (teams w) of
               None \<Rightarrow> Inl TeamNotFound
             | Some team \<Rightarrow>
                 if indexOf (memberIds team) u = - 1 then Inl TeamNotFound else Inr team)
      | _ \<Rightarrow> Inl BadData)"

section \<open>The vocabulary of the properties\<close>

text \<open>
  A collection is well formed when it is one the database can hold under the schema's
  indexes and validators: the \<^verbatim>\<open>_id\<close>s are distinct, the required strings are there,
  and no two documents collide on a unique path.
\<close>

definition wf_users :: "user list \<Rightarrow> bool" where
  "wf_users us = (distinct (map uid us) \<and> list_all required_ok us
                  \<and> list_all (\<lambda>u. list_all (\<lambda>v. uid v = uid u \<or> \<not> collides v u) us) us)"

text \<open>
  The document that the existing-user branch hands to \<^verbatim>\<open>save\<close> (lines 352-364), and the
  one that the new-user branch hands to it (lines 372-391).
\<close>

definition mergeOAuth :: "provider \<Rightarrow> string \<Rightarrow> oauth_token \<Rightarrow> user \<Rightarrow> user" where
  "mergeOAuth ty oid tok user =
     whenTruthy (prop_value (refreshToken tok)) (setRefreshToken ty)
       (whenTruthy (prop_value (accessToken tok)) (setAccessToken ty)
          (if \<not> truthy (getId ty user) then setId ty oid user else user))"

definition newOAuthUser ::
  "env \<Rightarrow> user list \<Rightarrow> provider \<Rightarrow> string \<Rightarrow> string \<Rightarrow> oauth_token \<Rightarrow> string
     \<Rightarrow> string option \<Rightarrow> user" where
  "newOAuthUser env us ty oid e tok dn av =
     whenTruthy (prop_value (refreshToken tok)) (setRefreshToken ty)
       (whenTruthy (prop_value (accessToken tok)) (setAccessToken ty)
          (setId ty oid
             (new_User (newObjectId env us) (now env) e (Some dn) av (generateSlug env us dn) [])))"

text \<open>
  A document with its provider ids and its token fields blanked: what is left is every
  other field.
\<close>

definition otherFields :: "user \<Rightarrow> user" where
  "otherFields u = u\<lparr>googleId := None, microsoftId := None,
                     oAuthAccessToken := Unset, oAuthRefreshToken := Unset\<rparr>"

text \<open>The token a document holds in the clear for a provider.\<close>

fun tokenFor :: "provider \<Rightarrow> token_field \<Rightarrow> string option" where
  "tokenFor ty (Plain m) = map_of m ty"
| "tokenFor ty Unset = None"
| "tokenFor ty (Cipher m) = None"

text \<open>A document is a decrypted view when neither token field holds ciphertext.\<close>

fun inTheClear :: "token_field \<Rightarrow> bool" where
  "inTheClear (Cipher m) = False"
| "inTheClear Unset = True"
| "inTheClear (Plain m) = True"

definition decryptedView :: "user \<Rightarrow> bool" where
  "decryptedView u = (inTheClear (oAuthAccessToken u) \<and> inTheClear (oAuthRefreshToken u))"

text \<open>What a call added to the record of effects, and the emails among them.\<close>

definition newEffects :: "world \<Rightarrow> world \<Rightarrow> effect list" where
  "newEffects w w' = drop (length (effects w)) (effects w')"

fun emailsSent :: "effect list \<Rightarrow> mail list" where
  "emailsSent [] = []"
| "emailsSent (SendEmail m # xs) = m # emailsSent xs"
| "emailsSent (Subscribe e l # xs) = emailsSent xs"
| "emailsSent (LogError msg # xs) = emailsSent xs"

text \<open>
  The effects of lines 407-424, given whether an invitation exists and the rendered
  template; a send or a subscription that the environment makes fail.
\<close>

definition welcomeEffects :: "env \<Rightarrow> bool \<Rightarrow> string \<Rightarrow> string \<times> string \<Rightarrow> effect list" where
  "welcomeEffects env hasInv e template =
     (if hasInv then []
      else SendEmail (welcomeMail env e template)
           # (if sendEmailFails env (welcomeMail env e template)
              then [LogError ''Email sending error:''] else []))
     @ Subscribe e ''signups''
       # (if subscribeFails env e ''signups'' then [LogError ''Mailchimp error:''] else [])"

fun failedEffect :: "env \<Rightarrow> effect \<Rightarrow> bool" where
  "failedEffect env (SendEmail m) = sendEmailFails env m"
| "failedEffect env (Subscribe e l) = subscribeFails env e l"
| "failedEffect env (LogError msg) = False"

fun isSendEmail :: "effect \<Rightarrow> bool" where
  "isSendEmail (SendEmail m) = True"
| "isSendEmail (Subscribe e l) = False"
| "isSendEmail (LogError msg) = False"

fun isSubscribe :: "effect \<Rightarrow> bool" where
  "isSubscribe (Subscribe e l) = True"
| "isSubscribe (SendEmail m) = False"
| "isSubscribe (LogError msg) = False"

definition failedSend :: "env \<Rightarrow> effect list \<Rightarrow> bool" where
  "failedSend env xs = list_ex (\<lambda>x. isSendEmail x \<and> failedEffect env x) xs"

definition failedSubscribe :: "env \<Rightarrow> effect list \<Rightarrow> bool" where
  "failedSubscribe env xs = list_ex (\<lambda>x. isSubscribe x \<and> failedEffect env x) xs"

text \<open>
  Modelled from the spec: \<^verbatim>\<open>generateSlug\<close> (\<^verbatim>\<open>../utils/slugify\<close>) is not among the sources.
  The spec says that it "generates a unique slug": the slug it returns is one no stored
  user has.  The slug is a required path, so it is not empty either.
\<close>

definition slugAvailable :: "user list \<Rightarrow> string \<Rightarrow> bool" where
  "slugAvailable us sl = (sl \<noteq> [] \<and> list_all (\<lambda>u. slug u \<noteq> sl) us)"

section \<open>A concrete deployment\<close>

text \<open>
  Two stored users: Alice signed up by email and has no provider id; Bob signed in with
  Google, and his access token is encrypted at rest.  One team, one welcome template.
\<close>

definition env0 :: env where
  "env0 = \<lparr>GOOGLE_CLIENTID = ''google-client'', MICROSOFT_CLIENTID = ''microsoft-client'',
           EMAIL_SUPPORT_FROM_ADDRESS = ''team@example.com'', now = 1000,
           newObjectId = (\<lambda>us. ''u-new''),
           generateSlug = (\<lambda>us name. name),
           getEmailTemplate = (\<lambda>name userName t. (template_subject t, template_message t)),
           sendEmailFails = (\<lambda>m. False),
           subscribeFails = (\<lambda>e listName. False)\<rparr>"

definition alice :: user where
  "alice = new_User ''u1'' 1 ''alice@example.com'' None None ''alice'' []"

definition bob :: user where
  "bob = (new_User ''u2'' 2 ''bob@example.com'' (Some ''Bob'') None ''bob'' [])
           \<lparr>googleId := Some ''g-bob'', oAuthAccessToken := Cipher [(Google, ''old-token'')]\<rparr>"

definition team1 :: team where
  "team1 = \<lparr>team_id = ''t1'', memberIds = [''u1'']\<rparr>"

definition welcomeTemplate :: email_template where
  "welcomeTemplate = \<lparr>template_name = ''welcome'', template_subject = ''Welcome'',
                       template_message = ''Hello''\<rparr>"

definition world0 :: world where
  "world0 = \<lparr>users = [alice, bob], teams = [team1], invitations = [],
             emailTemplates = [welcomeTemplate], effects = []\<rparr>"

definition envFailing :: env where
  "envFailing = env0\<lparr>sendEmailFails := (\<lambda>m. True), subscribeFails := (\<lambda>e listName. True)\<rparr>"

definition worldInvited :: world where
  "worldInvited = world0\<lparr>invitations :=
     [\<lparr>invitation_email = ''carol@example.com'', invitation_teamId = ''t1''\<rparr>]\<rparr>"

definition worldNoTemplate :: world where
  "worldNoTemplate = world0\<lparr>emailTemplates := []\<rparr>"

definition undefinedTokens :: oauth_token where
  "undefinedTokens = \<lparr>accessToken = Key None, refreshToken = Key None\<rparr>"

definition bothTokens :: oauth_token where
  "bothTokens = \<lparr>accessToken = Key (Some ''access-1''), refreshToken = Key (Some ''refresh-1'')\<rparr>"

section \<open>Lists\<close>

lemma indexOf_ge: "- 1 \<le> indexOf xs x"
  by (induction xs) (auto simp: Let_def)

lemma indexOf_absent: "indexOf xs x = - 1 \<longleftrightarrow> x \<notin> set xs"
proof (induction xs)
  case Nil
  show ?case by simp
next
  case (Cons y ys)
  have "- 1 \<le> indexOf ys x" by (rule indexOf_ge)
  then have "indexOf ys x + 1 \<noteq> - 1" by arith
  with Cons show ?case by (auto simp: Let_def)
qed

lemma find_None_iff_all: "find P xs = None \<longleftrightarrow> (\<forall>x\<in>set xs. \<not> P x)"
  by (induction xs) auto

lemma find_Some_D: "find P xs = Some x \<Longrightarrow> x \<in> set xs \<and> P x"
  by (induction xs) (auto split: if_splits)

section \<open>The oauthId guard\<close>

text \<open>
  C5.  When \<^verbatim>\<open>oauthId\<close> is absent (undefined, or the empty string, which \<^verbatim>\<open>!oauthId\<close>
  takes for absent too), \<open>signInOrSignUp\<close> throws \<^verbatim>\<open>'oauthId is required'\<close> whatever the
  other arguments and the state are, and the state is the one it was given: nothing was
  looked up, nothing was written, nothing was sent.
\<close>

theorem signInOrSignUp_requires_oauthId:
  "\<not> truthy oauthId \<Longrightarrow>
     signInOrSignUp env w ty oauthId e oauthToken dn av = (Inl OauthIdRequired, w)"
  by (simp add: signInOrSignUp_def truthy_def split: option.splits)

theorem signInOrSignUp_requires_oauthId_witness:
  "\<not> truthy None \<and>
   signInOrSignUp env0 world0 Google None ''alice@example.com'' bothTokens ''Alice'' None
     = (Inl OauthIdRequired, world0)"
  using signInOrSignUp_requires_oauthId
          [of None env0 world0 Google "''alice@example.com''" bothTokens "''Alice''" None]
  by (simp add: truthy_def)

section \<open>The team permission check\<close>

lemma checkPermission_Some:
  "u \<noteq> [] \<Longrightarrow> t \<noteq> [] \<Longrightarrow>
   checkPermissionAndGetTeam w (Some u) (Some t) =
     (case find (\<lambda>x. team_id x = t) (teams w) of
        None \<Rightarrow> Inl TeamNotFound
      | Some team \<Rightarrow> if u \<in> set (memberIds team) then Inr team else Inl TeamNotFound)"
  by (simp add: checkPermissionAndGetTeam_def indexOf_absent split: option.splits)

lemma checkPermission_absent:
  "\<not> truthy userId \<or> \<not> truthy teamId \<Longrightarrow>
   checkPermissionAndGetTeam w userId teamId = Inl BadData"
  by (auto simp: checkPermissionAndGetTeam_def truthy_def split: option.splits)

text \<open>
  C3.  \<open>checkPermissionAndGetTeam\<close> throws when the user id is absent or the team id is
  absent (\<^verbatim>\<open>'Bad data'\<close>), when no team has the team id, and when the user id is not in
  the member list of the team found (\<^verbatim>\<open>'Team not found'\<close>); in the one remaining case,
  a team found with the user id among its members, it returns that team.
\<close>

theorem checkPermissionAndGetTeam_result:
  "(\<not> truthy userId \<or> \<not> truthy teamId \<longrightarrow>
      checkPermissionAndGetTeam w userId teamId = Inl BadData) \<and>
   (truthy userId \<and> teamId = Some t \<and> t \<noteq> [] \<and> (\<forall>x\<in>set (teams w). team_id x \<noteq> t) \<longrightarrow>
      checkPermissionAndGetTeam w userId teamId = Inl TeamNotFound) \<and>
   (userId = Some u \<and> u \<noteq> [] \<and> teamId = Some t \<and> t \<noteq> []
      \<and> find (\<lambda>x. team_id x = t) (teams w) = Some team \<and> u \<notin> set (memberIds team) \<longrightarrow>
      checkPermissionAndGetTeam w userId teamId = Inl TeamNotFound) \<and>
   (userId = Some u \<and> u \<noteq> [] \<and> teamId = Some t \<and> t \<noteq> []
      \<and> find (\<lambda>x. team_id x = t) (teams w) = Some team \<and> u \<in> set (memberIds team) \<longrightarrow>
      checkPermissionAndGetTeam w userId teamId = Inr team)"
proof (intro conjI impI)
  assume "\<not> truthy userId \<or> \<not> truthy teamId"
  then show "checkPermissionAndGetTeam w userId teamId = Inl BadData"
    by (rule checkPermission_absent)
next
  assume a: "truthy userId \<and> teamId = Some t \<and> t \<noteq> [] \<and> (\<forall>x\<in>set (teams w). team_id x \<noteq> t)"
  then obtain u' where u': "userId = Some u'" "u' \<noteq> []"
    by (auto simp: truthy_def split: option.splits)
  from a have "find (\<lambda>x. team_id x = t) (teams w) = None"
    by (simp add: find_None_iff_all)
  with a u' show "checkPermissionAndGetTeam w userId teamId = Inl TeamNotFound"
    by (simp add: checkPermission_Some)
next
  assume "userId = Some u \<and> u \<noteq> [] \<and> teamId = Some t \<and> t \<noteq> []
      \<and> find (\<lambda>x. team_id x = t) (teams w) = Some team \<and> u \<notin> set (memberIds team)"
  then show "checkPermissionAndGetTeam w userId teamId = Inl TeamNotFound"
    by (simp add: checkPermission_Some)
next
  assume "userId = Some u \<and> u \<noteq> [] \<and> teamId = Some t \<and> t \<noteq> []
      \<and> find (\<lambda>x. team_id x = t) (teams w) = Some team \<and> u \<in> set (memberIds team)"
  then show "checkPermissionAndGetTeam w userId teamId = Inr team"
    by (simp add: checkPermission_Some)
qed

theorem checkPermissionAndGetTeam_result_witness:
  "checkPermissionAndGetTeam world0 None (Some ''t1'') = Inl BadData \<and>
   checkPermissionAndGetTeam world0 (Some ''u1'') (Some ''t9'') = Inl TeamNotFound \<and>
   checkPermissionAndGetTeam world0 (Some ''u2'') (Some ''t1'') = Inl TeamNotFound \<and>
   checkPermissionAndGetTeam world0 (Some ''u1'') (Some ''t1'') = Inr team1"
  using checkPermissionAndGetTeam_result
          [where userId = None and teamId = "Some ''t1''" and w = world0]
        checkPermissionAndGetTeam_result
          [where userId = "Some ''u1''" and teamId = "Some ''t9''" and t = "''t9''"
             and w = world0]
        checkPermissionAndGetTeam_result
          [where userId = "Some ''u2''" and teamId = "Some ''t1''" and t = "''t1''"
             and w = world0 and u = "''u2''" and team = team1]
        checkPermissionAndGetTeam_result
          [where userId = "Some ''u1''" and teamId = "Some ''t1''" and t = "''t1''"
             and w = world0 and u = "''u1''" and team = team1]
  by (simp add: truthy_def world0_def team1_def)

section \<open>The plugin, the collection and the welcome steps\<close>

lemma wf_world0: "wf_users (users world0)"
  by (simp add: wf_users_def world0_def alice_def bob_def new_User_def required_ok_def collides_def)

lemma save_new_ok:
  "required_ok u \<Longrightarrow> uid u \<notin> set (map uid us) \<Longrightarrow> unique_ok us u \<Longrightarrow>
   save True us u = Inr (encryptFields u, us @ [encryptFields u])"
  by (simp add: save_def Let_def required_ok_def unique_ok_def collides_def encryptFields_def)

lemma sendWelcome_missing:
  "find (templateNamed ''welcome'') (emailTemplates w) = None \<Longrightarrow>
   sendWelcome env w e un = (Inl WelcomeTemplateNotFound, w)"
  by (simp add: sendWelcome_def)

lemma sendWelcome_found:
  "find (templateNamed ''welcome'') (emailTemplates w) = Some t \<Longrightarrow>
   sendWelcome env w e un =
     (Inr (),
      w\<lparr>effects := effects w
         @ (if hasInvitation w e then []
            else SendEmail (welcomeMail env e (getEmailTemplate env ''welcome'' un t))
                 # (if sendEmailFails env (welcomeMail env e (getEmailTemplate env ''welcome'' un t))
                    then [LogError ''Email sending error:''] else []))
         @ Subscribe e ''signups''
           # (if subscribeFails env e ''signups'' then [LogError ''Mailchimp error:''] else [])\<rparr>)"
  by (simp add: sendWelcome_def sendEmail_def subscribe_def logger_error_def Let_def)

lemma findOne_Some_D:
  "findOne P us = Some u \<Longrightarrow> \<exists>s\<in>set us. P s \<and> u = decryptFieldsSync s"
  by (auto simp: findOne_def dest: find_Some_D)

lemma whenTruthy_falsy: "\<not> truthy v \<Longrightarrow> whenTruthy v f x = x"
  by (simp add: whenTruthy_def truthy_def split: option.splits)

lemma truthy_Some: "truthy v \<Longrightarrow> \<exists>s. v = Some s \<and> s \<noteq> []"
  by (simp add: truthy_def split: option.splits)

lemma whenTruthy_access:
  "whenTruthy v (setAccessToken ty) x =
     x\<lparr>oAuthAccessToken := whenTruthy v (setToken ty) (oAuthAccessToken x)\<rparr>"
  by (simp add: whenTruthy_def setAccessToken_def split: option.splits)

lemma whenTruthy_refresh:
  "whenTruthy v (setRefreshToken ty) x =
     x\<lparr>oAuthRefreshToken := whenTruthy v (setToken ty) (oAuthRefreshToken x)\<rparr>"
  by (simp add: whenTruthy_def setRefreshToken_def split: option.splits)

lemma tokenFor_setToken: "tokenFor ty (setToken ty v f) = Some v"
  by (cases f) (simp_all add: update_conv')

lemma inTheClear_setToken: "inTheClear (setToken ty v f)"
  by (cases f) simp_all

lemma inTheClear_decryptField: "inTheClear (decryptField f)"
  by (cases f) simp_all

lemma strip_decrypt_encrypt: "stripField (decryptField (encryptField f)) = decryptField f"
  by (cases f) simp_all

lemma decryptField_clear: "inTheClear f \<Longrightarrow> decryptField f = f"
  by (cases f) simp_all

lemma view_of_saved:
  "stripEncryptionFieldMarkers (decryptFieldsSync (encryptFields u)) = decryptFieldsSync u"
  by (simp add: stripEncryptionFieldMarkers_def decryptFieldsSync_def encryptFields_def
        strip_decrypt_encrypt)

lemma decryptedView_decrypt: "decryptedView (decryptFieldsSync u)"
  by (simp add: decryptedView_def decryptFieldsSync_def inTheClear_decryptField)

lemma decrypt_view: "decryptedView u \<Longrightarrow> decryptFieldsSync u = u"
  by (simp add: decryptedView_def decryptFieldsSync_def decryptField_clear)

lemma save_existing_ok:
  "required_ok u \<Longrightarrow> unique_ok (filter (\<lambda>v. uid v \<noteq> uid u) us) u \<Longrightarrow>
   save False us u =
     Inr (encryptFields u, map (\<lambda>v. if uid v = uid u then encryptFields u else v) us)"
  by (simp add: save_def Let_def required_ok_def unique_ok_def collides_def encryptFields_def)

section \<open>Signing in to an existing account\<close>

lemma signIn_existing:
  assumes "oid \<noteq> []"
      and "findOne (matches ty e oid) (users w) = Some user"
      and "\<not> isEmpty tok"
  shows "signInOrSignUp env w ty (Some oid) e tok dn av =
           (case save False (users w) (mergeOAuth ty oid tok user) of
              Inl err \<Rightarrow> (Inl err, w)
            | Inr (d, us') \<Rightarrow>
                (Inr (stripEncryptionFieldMarkers (decryptFieldsSync d)), w\<lparr>users := us'\<rparr>))"
  using assms by (simp add: signInOrSignUp_def mergeOAuth_def Let_def)

lemma mergeOAuth_frame:
  "uid (mergeOAuth ty oid tok u) = uid u"
  "email (mergeOAuth ty oid tok u) = email u"
  "slug (mergeOAuth ty oid tok u) = slug u"
  by (cases ty; simp add: mergeOAuth_def whenTruthy_access whenTruthy_refresh)+

lemma mergeOAuth_ids:
  "getId ty (mergeOAuth ty oid tok u) = (if truthy (getId ty u) then getId ty u else Some oid)"
  "ty' \<noteq> ty \<Longrightarrow> getId ty' (mergeOAuth ty oid tok u) = getId ty' u"
  by (cases ty; cases ty'; simp add: mergeOAuth_def whenTruthy_access whenTruthy_refresh)+

lemma mergeOAuth_tokens:
  "oAuthAccessToken (mergeOAuth ty oid tok u) =
     whenTruthy (prop_value (accessToken tok)) (setToken ty) (oAuthAccessToken u)"
  "oAuthRefreshToken (mergeOAuth ty oid tok u) =
     whenTruthy (prop_value (refreshToken tok)) (setToken ty) (oAuthRefreshToken u)"
  by (cases ty; simp add: mergeOAuth_def whenTruthy_access whenTruthy_refresh)+

lemma wf_users_D:
  "wf_users us \<Longrightarrow> s \<in> set us \<Longrightarrow> v \<in> set us \<Longrightarrow> uid v \<noteq> uid s \<Longrightarrow> \<not> collides v s"
  by (auto simp: wf_users_def list_all_iff)

lemma wf_users_required: "wf_users us \<Longrightarrow> s \<in> set us \<Longrightarrow> required_ok s"
  by (auto simp: wf_users_def list_all_iff)

lemma decrypt_frame:
  "uid (decryptFieldsSync s) = uid s" "email (decryptFieldsSync s) = email s"
  "slug (decryptFieldsSync s) = slug s" "getId ty (decryptFieldsSync s) = getId ty s"
  by (cases ty; simp add: decryptFieldsSync_def)+

lemma collides_getId:
  "collides v u \<longleftrightarrow> email v = email u \<or> slug v = slug u
      \<or> (\<exists>ty. getId ty u \<noteq> None \<and> getId ty v = getId ty u)"
proof -
  have "(\<exists>ty. getId ty u \<noteq> None \<and> getId ty v = getId ty u) \<longleftrightarrow>
        (googleId u \<noteq> None \<and> googleId v = googleId u) \<or>
        (microsoftId u \<noteq> None \<and> microsoftId v = microsoftId u)"
  proof
    assume "\<exists>ty. getId ty u \<noteq> None \<and> getId ty v = getId ty u"
    then obtain ty where "getId ty u \<noteq> None \<and> getId ty v = getId ty u" ..
    then show "(googleId u \<noteq> None \<and> googleId v = googleId u) \<or>
        (microsoftId u \<noteq> None \<and> microsoftId v = microsoftId u)"
      by (cases ty) simp_all
  next
    assume "(googleId u \<noteq> None \<and> googleId v = googleId u) \<or>
        (microsoftId u \<noteq> None \<and> microsoftId v = microsoftId u)"
    then show "\<exists>ty. getId ty u \<noteq> None \<and> getId ty v = getId ty u"
    proof
      assume "googleId u \<noteq> None \<and> googleId v = googleId u"
      then have "getId Google u \<noteq> None \<and> getId Google v = getId Google u" by simp
      then show ?thesis ..
    next
      assume "microsoftId u \<noteq> None \<and> microsoftId v = microsoftId u"
      then have "getId Microsoft u \<noteq> None \<and> getId Microsoft v = getId Microsoft u" by simp
      then show ?thesis ..
    qed
  qed
  then show ?thesis by (simp add: collides_def)
qed

lemma mergeOAuth_accepted:
  assumes wf: "wf_users us"
      and s: "s \<in> set us"
      and free: "truthy (getId ty s) \<or> list_all (\<lambda>v. getId ty v \<noteq> Some oid) us"
  shows "save False us (mergeOAuth ty oid tok (decryptFieldsSync s)) =
           Inr (encryptFields (mergeOAuth ty oid tok (decryptFieldsSync s)),
                map (\<lambda>v. if uid v = uid s then encryptFields (mergeOAuth ty oid tok (decryptFieldsSync s)) else v) us)"
proof -
  let ?m = "mergeOAuth ty oid tok (decryptFieldsSync s)"
  have req: "required_ok ?m"
    using wf_users_required [OF wf s]
    by (simp add: required_ok_def mergeOAuth_frame decrypt_frame)
  have "\<not> collides v ?m" if v: "v \<in> set us" "uid v \<noteq> uid s" for v
  proof -
    have ns: "\<not> collides v s" using wf_users_D [OF wf s v] .
    then have others: "getId ty' s \<noteq> None \<Longrightarrow> getId ty' v \<noteq> getId ty' s" for ty'
      unfolding collides_getId by blast
    have "getId ty' ?m \<noteq> None \<Longrightarrow> getId ty' v \<noteq> getId ty' ?m" for ty'
    proof (cases "ty' = ty")
      case True
      assume "getId ty' ?m \<noteq> None"
      show ?thesis
      proof (cases "truthy (getId ty s)")
        case t: True
        then have "getId ty s \<noteq> None" by (auto simp: truthy_def split: option.splits)
        with others [of ty] t True show ?thesis
          by (simp add: mergeOAuth_ids decrypt_frame)
      next
        case False
        with free v have "getId ty v \<noteq> Some oid" by (auto simp: list_all_iff)
        with False True show ?thesis by (simp add: mergeOAuth_ids decrypt_frame)
      qed
    next
      case False
      assume "getId ty' ?m \<noteq> None"
      with others [of ty'] False show ?thesis
        by (simp add: mergeOAuth_ids decrypt_frame)
    qed
    with ns show ?thesis
      by (auto simp: collides_getId [of v ?m] collides_getId [of v s] mergeOAuth_frame decrypt_frame)
  qed
  then have uq: "unique_ok (filter (\<lambda>v. uid v \<noteq> uid ?m) us) ?m"
    by (auto simp: unique_ok_def list_all_iff mergeOAuth_frame decrypt_frame)
  show ?thesis
    using save_existing_ok [OF req uq] by (simp add: mergeOAuth_frame decrypt_frame)
qed

lemma whenTruthy_setToken_clear: "inTheClear f \<Longrightarrow> inTheClear (whenTruthy v (setToken ty) f)"
  by (simp add: whenTruthy_def inTheClear_setToken split: option.splits)

lemma mergeOAuth_view: "decryptedView u \<Longrightarrow> decryptedView (mergeOAuth ty oid tok u)"
  by (simp add: decryptedView_def mergeOAuth_tokens whenTruthy_setToken_clear)

text \<open>
  C1, as amended.  Let the collection be well formed, let the lookup find a user, let
  \<^verbatim>\<open>oauthToken\<close> be non-empty, and let the provider id be free: the user found has one
  already, or no stored user holds \<^verbatim>\<open>oauthId\<close>.  Then \<open>signInOrSignUp\<close> creates no
  account (the collection keeps its length, and only the document of the user found is
  replaced); it sets the provider id only if the user had none; it overwrites the access
  and the refresh token of the provider with each token that is supplied and leaves the
  field alone otherwise; the document is stored encrypted, and the one returned is its
  decrypted view.
\<close>

theorem signInOrSignUp_existing_user:
  assumes wf: "wf_users (users w)"
      and oid: "oid \<noteq> []"
      and found: "findOne (matches ty e oid) (users w) = Some user"
      and tok: "\<not> isEmpty oauthToken"
      and free: "truthy (getId ty user) \<or> list_all (\<lambda>v. getId ty v \<noteq> Some oid) (users w)"
  shows "\<exists>u' w'. signInOrSignUp env w ty (Some oid) e oauthToken dn av = (Inr u', w')
           \<and> w' = w\<lparr>users := map (\<lambda>v. if uid v = uid user then encryptFields u' else v) (users w)\<rparr>
           \<and> length (users w') = length (users w)
           \<and> getId ty u' = (if truthy (getId ty user) then getId ty user else Some oid)
           \<and> (\<forall>a. prop_value (accessToken oauthToken) = Some a \<and> a \<noteq> [] \<longrightarrow>
                  tokenFor ty (oAuthAccessToken u') = Some a)
           \<and> (\<not> truthy (prop_value (accessToken oauthToken)) \<longrightarrow>
                  oAuthAccessToken u' = oAuthAccessToken user)
           \<and> (\<forall>r. prop_value (refreshToken oauthToken) = Some r \<and> r \<noteq> [] \<longrightarrow>
                  tokenFor ty (oAuthRefreshToken u') = Some r)
           \<and> (\<not> truthy (prop_value (refreshToken oauthToken)) \<longrightarrow>
                  oAuthRefreshToken u' = oAuthRefreshToken user)
           \<and> decryptedView u'"
proof -
  from found obtain s where s: "s \<in> set (users w)" and user: "user = decryptFieldsSync s"
    by (auto dest: findOne_Some_D)
  let ?m = "mergeOAuth ty oid oauthToken user"
  have view: "decryptedView ?m"
    unfolding user by (rule mergeOAuth_view) (rule decryptedView_decrypt)
  have free': "truthy (getId ty s) \<or> list_all (\<lambda>v. getId ty v \<noteq> Some oid) (users w)"
    using free by (simp add: user decrypt_frame)
  have saved: "save False (users w) ?m =
      Inr (encryptFields ?m, map (\<lambda>v. if uid v = uid user then encryptFields ?m else v) (users w))"
    using mergeOAuth_accepted [OF wf s free', of oauthToken] by (simp add: user decrypt_frame)
  have ret: "stripEncryptionFieldMarkers (decryptFieldsSync (encryptFields ?m)) = ?m"
    using view by (simp add: view_of_saved decrypt_view)
  have call: "signInOrSignUp env w ty (Some oid) e oauthToken dn av =
      (Inr ?m, w\<lparr>users := map (\<lambda>v. if uid v = uid user then encryptFields ?m else v) (users w)\<rparr>)"
    by (simp add: signIn_existing [OF oid found tok] saved ret)
  have a: "\<forall>a. prop_value (accessToken oauthToken) = Some a \<and> a \<noteq> [] \<longrightarrow>
                  tokenFor ty (oAuthAccessToken ?m) = Some a"
    by (simp add: mergeOAuth_tokens whenTruthy_def tokenFor_setToken)
  have r: "\<forall>r. prop_value (refreshToken oauthToken) = Some r \<and> r \<noteq> [] \<longrightarrow>
                  tokenFor ty (oAuthRefreshToken ?m) = Some r"
    by (simp add: mergeOAuth_tokens whenTruthy_def tokenFor_setToken)
  have na: "\<not> truthy (prop_value (accessToken oauthToken)) \<longrightarrow>
                  oAuthAccessToken ?m = oAuthAccessToken user"
    by (simp add: mergeOAuth_tokens whenTruthy_falsy)
  have nr: "\<not> truthy (prop_value (refreshToken oauthToken)) \<longrightarrow>
                  oAuthRefreshToken ?m = oAuthRefreshToken user"
    by (simp add: mergeOAuth_tokens whenTruthy_falsy)
  have i: "getId ty ?m = (if truthy (getId ty user) then getId ty user else Some oid)"
    by (rule mergeOAuth_ids)
  from call a r na nr i view show ?thesis by simp
qed

lemmas example_defs =
  worldNoTemplate_def worldInvited_def envFailing_def world0_def alice_def bob_def new_User_def env0_def bothTokens_def undefinedTokens_def
  welcomeTemplate_def

theorem signInOrSignUp_existing_user_witness:
  "wf_users (users world0) \<and>
   findOne (matches Google ''alice@example.com'' ''g-alice'') (users world0) = Some alice \<and>
   \<not> isEmpty bothTokens \<and>
   (\<exists>u' w'. signInOrSignUp env0 world0 Google (Some ''g-alice'') ''alice@example.com'' bothTokens
                ''Alice'' None = (Inr u', w')
       \<and> length (users w') = 2 \<and> googleId u' = Some ''g-alice''
       \<and> tokenFor Google (oAuthAccessToken u') = Some ''access-1''
       \<and> tokenFor Google (oAuthRefreshToken u') = Some ''refresh-1'')"
proof -
  have h1: "wf_users (users world0)" by (rule wf_world0)
  have h2: "''g-alice'' \<noteq> []" by simp
  have h3: "findOne (matches Google ''alice@example.com'' ''g-alice'') (users world0) = Some alice"
    by (simp add: example_defs findOne_def matches_def decryptFieldsSync_def)
  have h4: "\<not> isEmpty bothTokens" by (simp add: isEmpty_def bothTokens_def)
  have h5: "truthy (getId Google alice)
              \<or> list_all (\<lambda>v. getId Google v \<noteq> Some ''g-alice'') (users world0)"
    by (simp add: example_defs)
  have u: "length (users world0) = 2" "prop_value (accessToken bothTokens) = Some ''access-1''"
    "prop_value (refreshToken bothTokens) = Some ''refresh-1''" "\<not> truthy (getId Google alice)"
    by (simp_all add: example_defs truthy_def)
  from signInOrSignUp_existing_user [OF h1 h2 h3 h4 h5, of env0 "''Alice''" None] h1 h3 h4 u
  show ?thesis by auto
qed

text \<open>
  C1 as it is stated fails when the user is found by email, has no provider id, and
  another account holds \<^verbatim>\<open>oauthId\<close>: the unique index on the provider id rejects the
  save, the error propagates, and nothing is stored.  Alice signs in with Google under
  Bob's Google id.
\<close>

theorem signInOrSignUp_existing_user_counterexample:
  "findOne (matches Google ''alice@example.com'' ''g-bob'') (users world0) = Some alice \<and>
   \<not> isEmpty bothTokens \<and>
   signInOrSignUp env0 world0 Google (Some ''g-bob'') ''alice@example.com'' bothTokens ''Alice'' None
     = (Inl DuplicateKey, world0)"
  by (simp add: example_defs signInOrSignUp_def findOne_def matches_def decryptFieldsSync_def
      isEmpty_def truthy_def whenTruthy_def setAccessToken_def setRefreshToken_def save_def
      encryptFields_def required_ok_def unique_ok_def collides_def Let_def)

section \<open>Signing in with an empty token object\<close>

text \<open>
  C7, as amended.  When the lookup finds a user and the \<^verbatim>\<open>oauthToken\<close> object is empty
  (it has neither key), \<open>signInOrSignUp\<close> returns the document as the query loaded it,
  and the state is the one it was given: no field is modified, nothing is persisted.
\<close>

theorem signInOrSignUp_empty_token:
  "oid \<noteq> [] \<Longrightarrow> findOne (matches ty e oid) (users w) = Some user \<Longrightarrow> isEmpty oauthToken \<Longrightarrow>
   signInOrSignUp env w ty (Some oid) e oauthToken dn av = (Inr user, w)"
  by (simp add: signInOrSignUp_def)

theorem signInOrSignUp_empty_token_witness:
  "findOne (matches Google ''other@example.com'' ''g-bob'') (users world0)
     = Some (bob\<lparr>oAuthAccessToken := Plain [(Google, ''old-token'')]\<rparr>) \<and>
   isEmpty \<lparr>accessToken = NoKey, refreshToken = NoKey\<rparr> \<and>
   signInOrSignUp env0 world0 Google (Some ''g-bob'') ''other@example.com''
       \<lparr>accessToken = NoKey, refreshToken = NoKey\<rparr> ''Robert'' None
     = (Inr (bob\<lparr>oAuthAccessToken := Plain [(Google, ''old-token'')]\<rparr>), world0)"
proof -
  have h1: "''g-bob'' \<noteq> []" by simp
  have h2: "findOne (matches Google ''other@example.com'' ''g-bob'') (users world0)
     = Some (bob\<lparr>oAuthAccessToken := Plain [(Google, ''old-token'')]\<rparr>)"
    by (simp add: example_defs findOne_def matches_def decryptFieldsSync_def)
  have h3: "isEmpty \<lparr>accessToken = NoKey, refreshToken = NoKey\<rparr>" by (simp add: isEmpty_def)
  from signInOrSignUp_empty_token [OF h1 h2 h3, of env0 "''Robert''" None] h2 h3
  show ?thesis by simp
qed

text \<open>
  C7 as it is stated fails when no token is supplied in an object that has the keys:
  \<^verbatim>\<open>{ accessToken: undefined, refreshToken: undefined }\<close>, which is what auth.ts builds
  when the provider hands over no token.  \<^verbatim>\<open>_.isEmpty\<close> is false for it, so the provider
  id is backfilled and the document is saved.
\<close>

theorem signInOrSignUp_undefined_tokens_counterexample:
  "prop_value (accessToken undefinedTokens) = None \<and>
   prop_value (refreshToken undefinedTokens) = None \<and>
   findOne (matches Google ''alice@example.com'' ''g-alice'') (users world0) = Some alice \<and>
   signInOrSignUp env0 world0 Google (Some ''g-alice'') ''alice@example.com'' undefinedTokens
       ''Alice'' None
     = (Inr (alice\<lparr>googleId := Some ''g-alice''\<rparr>),
        world0\<lparr>users := [alice\<lparr>googleId := Some ''g-alice''\<rparr>, bob]\<rparr>) \<and>
   alice\<lparr>googleId := Some ''g-alice''\<rparr> \<noteq> alice"
  by (simp add: example_defs signInOrSignUp_def findOne_def matches_def decryptFieldsSync_def
      isEmpty_def truthy_def whenTruthy_def setAccessToken_def setRefreshToken_def save_def
      encryptFields_def required_ok_def unique_ok_def collides_def Let_def
      stripEncryptionFieldMarkers_def)

section \<open>The fields a merge leaves alone\<close>

lemma save_existing_D:
  "save False us m = Inr (d, us') \<Longrightarrow>
   d = encryptFields m \<and> us' = map (\<lambda>v. if uid v = uid m then d else v) us"
  by (auto simp: save_def Let_def encryptFields_def split: if_splits)

lemma otherFields_plugin:
  "otherFields (encryptFields u) = otherFields u"
  "otherFields (decryptFieldsSync u) = otherFields u"
  "otherFields (stripEncryptionFieldMarkers u) = otherFields u"
  by (simp_all add: otherFields_def encryptFields_def decryptFieldsSync_def
        stripEncryptionFieldMarkers_def)

lemma otherFields_mergeOAuth: "otherFields (mergeOAuth ty oid tok u) = otherFields u"
  by (cases ty) (simp_all add: otherFields_def mergeOAuth_def whenTruthy_access whenTruthy_refresh)

lemma otherFields_read:
  "uid (otherFields u) = uid u" "email (otherFields u) = email u" "slug (otherFields u) = slug u"
  "createdAt (otherFields u) = createdAt u" "displayName (otherFields u) = displayName u"
  "avatarUrl (otherFields u) = avatarUrl u"
  by (simp_all add: otherFields_def)

lemma tokenFor_whenTruthy_other:
  "ty' \<noteq> ty \<Longrightarrow> tokenFor ty' (whenTruthy v (setToken ty) f) = tokenFor ty' f"
  by (cases f) (simp_all add: whenTruthy_def update_conv' split: option.splits)

lemma wf_users_same_uid:
  "wf_users us \<Longrightarrow> s \<in> set us \<Longrightarrow> v \<in> set us \<Longrightarrow> uid v = uid s \<Longrightarrow> v = s"
  by (auto simp: wf_users_def distinct_map dest: inj_onD)

text \<open>
  C10.  When \<open>signInOrSignUp\<close> finds an existing user, every field other than the
  provider ids and the token fields is left unchanged in the document returned, whatever
  email, display name and avatar the call supplies, and the id and the token entries of
  the other provider are unchanged too; nothing but the collection changes; and in a
  well-formed collection every stored document keeps those fields as well.
\<close>

theorem signInOrSignUp_merge_frame:
  assumes oid: "oid \<noteq> []"
      and found: "findOne (matches ty e oid) (users w) = Some user"
      and call: "signInOrSignUp env w ty (Some oid) e oauthToken dn av = (r, w')"
  shows "(wf_users (users w) \<longrightarrow> map otherFields (users w') = map otherFields (users w))
       \<and> w' = w\<lparr>users := users w'\<rparr>
       \<and> (\<forall>u'. r = Inr u' \<longrightarrow>
             otherFields u' = otherFields user
           \<and> email u' = email user \<and> slug u' = slug user \<and> createdAt u' = createdAt user
           \<and> displayName u' = displayName user \<and> avatarUrl u' = avatarUrl user
           \<and> (\<forall>ty'. ty' \<noteq> ty \<longrightarrow>
                  getId ty' u' = getId ty' user
                \<and> tokenFor ty' (oAuthAccessToken u') = tokenFor ty' (oAuthAccessToken user)
                \<and> tokenFor ty' (oAuthRefreshToken u') = tokenFor ty' (oAuthRefreshToken user)))"
proof (cases "isEmpty oauthToken")
  case True
  with oid found call have "r = Inr user" "w' = w" by (simp_all add: signInOrSignUp_def)
  then show ?thesis by simp
next
  case False
  from found obtain s where s: "s \<in> set (users w)" and user: "user = decryptFieldsSync s"
    by (auto dest: findOne_Some_D)
  let ?m = "mergeOAuth ty oid oauthToken user"
  note ex = signIn_existing [OF oid found False, of env dn av]
  show ?thesis
  proof (cases "save False (users w) ?m")
    case (Inl err)
    with ex call have "r = Inl err" "w' = w" by simp_all
    then show ?thesis by simp
  next
    case (Inr p)
    obtain d us' where p: "p = (d, us')" by (cases p)
    from Inr p save_existing_D [of "users w" ?m d us']
    have d: "d = encryptFields ?m"
      and us': "us' = map (\<lambda>v. if uid v = uid ?m then d else v) (users w)" by simp_all
    have view: "decryptedView ?m"
      unfolding user by (rule mergeOAuth_view) (rule decryptedView_decrypt)
    have ret: "stripEncryptionFieldMarkers (decryptFieldsSync d) = ?m"
      using view by (simp add: d view_of_saved decrypt_view)
    from ex call Inr p ret have r: "r = Inr ?m" and w': "w' = w\<lparr>users := us'\<rparr>" by simp_all
    have od: "otherFields d = otherFields s"
      by (simp add: d user otherFields_plugin otherFields_mergeOAuth)
    have store: "map otherFields us' = map otherFields (users w)" if wf: "wf_users (users w)"
    proof -
      have "otherFields (if uid v = uid ?m then d else v) = otherFields v"
        if "v \<in> set (users w)" for v
      proof (cases "uid v = uid ?m")
        case True
        then have "uid v = uid s" by (simp add: mergeOAuth_frame user decrypt_frame)
        with wf s that have "v = s" by (rule wf_users_same_uid)
        with True od show ?thesis by simp
      next
        case False
        then show ?thesis by simp
      qed
      then show ?thesis by (simp add: us')
    qed
    have fr: "otherFields ?m = otherFields user" by (rule otherFields_mergeOAuth)
    have fields: "email ?m = email user \<and> slug ?m = slug user \<and> createdAt ?m = createdAt user
           \<and> displayName ?m = displayName user \<and> avatarUrl ?m = avatarUrl user"
      using otherFields_read [of ?m] by (simp add: fr otherFields_read)
    have others: "\<forall>ty'. ty' \<noteq> ty \<longrightarrow>
                  getId ty' ?m = getId ty' user
                \<and> tokenFor ty' (oAuthAccessToken ?m) = tokenFor ty' (oAuthAccessToken user)
                \<and> tokenFor ty' (oAuthRefreshToken ?m) = tokenFor ty' (oAuthRefreshToken user)"
      by (simp add: mergeOAuth_ids mergeOAuth_tokens tokenFor_whenTruthy_other)
    from r w' store fr fields others show ?thesis by simp
  qed
qed

theorem signInOrSignUp_merge_frame_witness:
  "wf_users (users world0) \<and>
   findOne (matches Google ''other@example.com'' ''g-bob'') (users world0)
     = Some (bob\<lparr>oAuthAccessToken := Plain [(Google, ''old-token'')]\<rparr>) \<and>
   (\<exists>u' w'. signInOrSignUp env0 world0 Google (Some ''g-bob'') ''other@example.com'' bothTokens
               ''Robert'' (Some ''https://example.com/robert.png'') = (Inr u', w')
      \<and> email u' = ''bob@example.com'' \<and> slug u' = ''bob'' \<and> createdAt u' = 2
      \<and> displayName u' = Some ''Bob'' \<and> avatarUrl u' = None
      \<and> map otherFields (users w') = map otherFields (users world0))"
proof -
  have h1: "wf_users (users world0)" by (rule wf_world0)
  have h2: "''g-bob'' \<noteq> []" by simp
  have h3: "findOne (matches Google ''other@example.com'' ''g-bob'') (users world0)
     = Some (bob\<lparr>oAuthAccessToken := Plain [(Google, ''old-token'')]\<rparr>)"
    by (simp add: example_defs findOne_def matches_def decryptFieldsSync_def)
  obtain r w' where call: "signInOrSignUp env0 world0 Google (Some ''g-bob'') ''other@example.com''
      bothTokens ''Robert'' (Some ''https://example.com/robert.png'') = (r, w')"
    by (cases "signInOrSignUp env0 world0 Google (Some ''g-bob'') ''other@example.com''
      bothTokens ''Robert'' (Some ''https://example.com/robert.png'')")
  have ok: "\<exists>u'. r = Inr u'"
    using call
    by (auto simp add: example_defs signInOrSignUp_def findOne_def matches_def decryptFieldsSync_def
      isEmpty_def truthy_def whenTruthy_def setAccessToken_def setRefreshToken_def save_def
      encryptFields_def required_ok_def unique_ok_def collides_def Let_def)
  have b: "email bob = ''bob@example.com''" "slug bob = ''bob''" "createdAt bob = 2"
    "displayName bob = Some ''Bob''" "avatarUrl bob = None"
    by (simp_all add: example_defs)
  from signInOrSignUp_merge_frame [OF h2 h3 call] ok call h1 h3 b
  show ?thesis by auto
qed

section \<open>Creating an account on sign-in\<close>

lemma findOne_None: "findOne P us = None \<longleftrightarrow> (\<forall>u\<in>set us. \<not> P u)"
  by (simp add: findOne_def find_None_iff_all)

lemma save_new_D:
  "save True us u = Inr (d, us') \<Longrightarrow>
   d = encryptFields u \<and> us' = us @ [d] \<and> required_ok u \<and> uid u \<notin> set (map uid us)
     \<and> unique_ok us u"
  by (auto simp: save_def Let_def encryptFields_def required_ok_def unique_ok_def collides_def
           split: if_splits)

lemma encrypt_frame:
  "uid (encryptFields u) = uid u" "email (encryptFields u) = email u"
  "slug (encryptFields u) = slug u" "getId ty (encryptFields u) = getId ty u"
  by (cases ty; simp add: encryptFields_def)+

lemma signIn_new:
  assumes "oid \<noteq> []" and "findOne (matches ty e oid) (users w) = None"
  shows "signInOrSignUp env w ty (Some oid) e tok dn av =
           (case save True (users w) (newOAuthUser env (users w) ty oid e tok dn av) of
              Inl err \<Rightarrow> (Inl err, w)
            | Inr (d, us') \<Rightarrow>
                (case sendWelcome env (w\<lparr>users := us'\<rparr>) e dn of
                   (Inl err, w') \<Rightarrow> (Inl err, w')
                 | (Inr x, w') \<Rightarrow>
                     (Inr (stripEncryptionFieldMarkers (decryptFieldsSync d)), w')))"
  using assms by (simp add: signInOrSignUp_def newOAuthUser_def Let_def)

lemma newOAuthUser_fields:
  "uid (newOAuthUser env us ty oid e tok dn av) = newObjectId env us"
  "email (newOAuthUser env us ty oid e tok dn av) = e"
  "slug (newOAuthUser env us ty oid e tok dn av) = generateSlug env us dn"
  "createdAt (newOAuthUser env us ty oid e tok dn av) = now env"
  "defaultTeamSlug (newOAuthUser env us ty oid e tok dn av) = []"
  "displayName (newOAuthUser env us ty oid e tok dn av) = Some dn"
  "avatarUrl (newOAuthUser env us ty oid e tok dn av) = av"
  by (cases ty; simp add: newOAuthUser_def whenTruthy_access whenTruthy_refresh new_User_def)+

lemma newOAuthUser_ids:
  "getId ty (newOAuthUser env us ty oid e tok dn av) = Some oid"
  "ty' \<noteq> ty \<Longrightarrow> getId ty' (newOAuthUser env us ty oid e tok dn av) = None"
  by (cases ty; cases ty';
      simp add: newOAuthUser_def whenTruthy_access whenTruthy_refresh new_User_def)+

lemma newOAuthUser_tokens:
  "oAuthAccessToken (newOAuthUser env us ty oid e tok dn av) =
     whenTruthy (prop_value (accessToken tok)) (setToken ty) Unset"
  "oAuthRefreshToken (newOAuthUser env us ty oid e tok dn av) =
     whenTruthy (prop_value (refreshToken tok)) (setToken ty) Unset"
  by (cases ty; simp add: newOAuthUser_def whenTruthy_access whenTruthy_refresh new_User_def)+

lemma newOAuthUser_view: "decryptedView (newOAuthUser env us ty oid e tok dn av)"
  by (simp add: decryptedView_def newOAuthUser_tokens whenTruthy_setToken_clear)

lemma newOAuthUser_accepted:
  assumes nomatch: "\<forall>u\<in>set us. \<not> matches ty e oid u"
      and e: "e \<noteq> []"
      and sl: "slugAvailable us (generateSlug env us dn)"
      and fresh: "newObjectId env us \<notin> set (map uid us)"
  shows "save True us (newOAuthUser env us ty oid e tok dn av) =
           Inr (encryptFields (newOAuthUser env us ty oid e tok dn av),
                us @ [encryptFields (newOAuthUser env us ty oid e tok dn av)])"
proof -
  let ?n = "newOAuthUser env us ty oid e tok dn av"
  have req: "required_ok ?n"
    using e sl by (simp add: required_ok_def newOAuthUser_fields slugAvailable_def)
  have "\<not> collides v ?n" if v: "v \<in> set us" for v
  proof -
    from nomatch v have m: "email v \<noteq> e" "getId ty v \<noteq> Some oid" by (auto simp: matches_def)
    from sl v have s: "slug v \<noteq> generateSlug env us dn" by (auto simp: slugAvailable_def list_all_iff)
    have "getId ty' ?n \<noteq> None \<Longrightarrow> getId ty' v \<noteq> getId ty' ?n" for ty'
      using m by (cases "ty' = ty") (simp_all add: newOAuthUser_ids)
    with m s show ?thesis by (auto simp: collides_getId newOAuthUser_fields)
  qed
  then have uq: "unique_ok us ?n" by (simp add: unique_ok_def list_all_iff)
  from fresh have id: "uid ?n \<notin> set (map uid us)" by (simp add: newOAuthUser_fields)
  show ?thesis by (rule save_new_ok [OF req id uq])
qed

lemma hasInvitation_users [simp]: "hasInvitation (w\<lparr>users := us\<rparr>) e = hasInvitation w e"
  by (simp add: hasInvitation_def)

lemma sendWelcome_found_fst:
  "find (templateNamed ''welcome'') (emailTemplates w) = Some t \<Longrightarrow>
   \<exists>w'. sendWelcome env w e un = (Inr (), w') \<and> users w' = users w"
  by (simp add: sendWelcome_found)

text \<open>
  C2, as amended.  Let no stored user match the email or the provider id, and let the
  write be one the schema accepts: the email is not empty, the slug that
  \<^verbatim>\<open>generateSlug\<close> returns for the display name is not empty and no stored user has it,
  and the \<^verbatim>\<open>_id\<close> drawn for the new document is fresh.  Let the \<^verbatim>\<open>welcome\<close> template
  exist.  Then \<open>signInOrSignUp\<close> appends exactly one document to the collection, with
  that slug, the provider id set, each supplied token set (and a token field unset when
  its token is not supplied), \<^verbatim>\<open>createdAt\<close> set to the clock, an empty
  \<^verbatim>\<open>defaultTeamSlug\<close>, and the email, display name and avatar of the call; the document
  is stored encrypted and its decrypted view is returned.
\<close>

theorem signInOrSignUp_new_user:
  assumes oid: "oid \<noteq> []"
      and nomatch: "findOne (matches ty e oid) (users w) = None"
      and e: "e \<noteq> []"
      and sl: "slugAvailable (users w) (generateSlug env (users w) dn)"
      and fresh: "newObjectId env (users w) \<notin> set (map uid (users w))"
      and template: "find (templateNamed ''welcome'') (emailTemplates w) = Some t"
  shows "\<exists>u' w'. signInOrSignUp env w ty (Some oid) e oauthToken dn av = (Inr u', w')
           \<and> users w' = users w @ [encryptFields u']
           \<and> slug u' = generateSlug env (users w) dn
           \<and> list_all (\<lambda>v. slug v \<noteq> slug u') (users w)
           \<and> getId ty u' = Some oid
           \<and> (\<forall>a. prop_value (accessToken oauthToken) = Some a \<and> a \<noteq> [] \<longrightarrow>
                  tokenFor ty (oAuthAccessToken u') = Some a)
           \<and> (\<not> truthy (prop_value (accessToken oauthToken)) \<longrightarrow> oAuthAccessToken u' = Unset)
           \<and> (\<forall>r. prop_value (refreshToken oauthToken) = Some r \<and> r \<noteq> [] \<longrightarrow>
                  tokenFor ty (oAuthRefreshToken u') = Some r)
           \<and> (\<not> truthy (prop_value (refreshToken oauthToken)) \<longrightarrow> oAuthRefreshToken u' = Unset)
           \<and> createdAt u' = now env \<and> defaultTeamSlug u' = []
           \<and> email u' = e \<and> displayName u' = Some dn \<and> avatarUrl u' = av
           \<and> decryptedView u'"
proof -
  let ?n = "newOAuthUser env (users w) ty oid e oauthToken dn av"
  from nomatch have nm: "\<forall>u\<in>set (users w). \<not> matches ty e oid u" by (simp add: findOne_None)
  have saved: "save True (users w) ?n = Inr (encryptFields ?n, users w @ [encryptFields ?n])"
    by (rule newOAuthUser_accepted [OF nm e sl fresh])
  have ret: "stripEncryptionFieldMarkers (decryptFieldsSync (encryptFields ?n)) = ?n"
    by (simp add: view_of_saved decrypt_view newOAuthUser_view)
  from template have "find (templateNamed ''welcome'')
      (emailTemplates (w\<lparr>users := users w @ [encryptFields ?n]\<rparr>)) = Some t" by simp
  from sendWelcome_found_fst [OF this, of env e dn]
  obtain w' where w': "sendWelcome env (w\<lparr>users := users w @ [encryptFields ?n]\<rparr>) e dn = (Inr (), w')"
      "users w' = users w @ [encryptFields ?n]" by auto
  have call: "signInOrSignUp env w ty (Some oid) e oauthToken dn av = (Inr ?n, w')"
    by (simp add: signIn_new [OF oid nomatch] saved w' ret)
  have slugs: "list_all (\<lambda>v. slug v \<noteq> slug ?n) (users w)"
    using sl by (simp add: slugAvailable_def newOAuthUser_fields)
  have a: "\<forall>a. prop_value (accessToken oauthToken) = Some a \<and> a \<noteq> [] \<longrightarrow>
                  tokenFor ty (oAuthAccessToken ?n) = Some a"
    by (simp add: newOAuthUser_tokens whenTruthy_def)
  have r: "\<forall>r. prop_value (refreshToken oauthToken) = Some r \<and> r \<noteq> [] \<longrightarrow>
                  tokenFor ty (oAuthRefreshToken ?n) = Some r"
    by (simp add: newOAuthUser_tokens whenTruthy_def)
  have na: "\<not> truthy (prop_value (accessToken oauthToken)) \<longrightarrow> oAuthAccessToken ?n = Unset"
    by (simp add: newOAuthUser_tokens whenTruthy_falsy)
  have nr: "\<not> truthy (prop_value (refreshToken oauthToken)) \<longrightarrow> oAuthRefreshToken ?n = Unset"
    by (simp add: newOAuthUser_tokens whenTruthy_falsy)
  from call w'(2) slugs a r na nr show ?thesis
    by (simp add: newOAuthUser_fields newOAuthUser_ids newOAuthUser_view)
qed

lemmas run_defs =
  signInOrSignUp_def signUpByEmail_def findOne_def findOneLean_def matches_def hasEmail_def
  decryptFieldsSync_def isEmpty_def truthy_def whenTruthy_def setAccessToken_def
  setRefreshToken_def save_def encryptFields_def required_ok_def unique_ok_def collides_def
  Let_def stripEncryptionFieldMarkers_def sendWelcome_def templateNamed_def hasInvitation_def
  sendEmail_def subscribe_def logger_error_def welcomeMail_def pick_publicFields_def
  isProviderUser_def

theorem signInOrSignUp_new_user_witness:
  "findOne (matches Google ''carol@example.com'' ''g-carol'') (users world0) = None \<and>
   slugAvailable (users world0) (generateSlug env0 (users world0) ''Carol'') \<and>
   newObjectId env0 (users world0) \<notin> set (map uid (users world0)) \<and>
   find (templateNamed ''welcome'') (emailTemplates world0) = Some welcomeTemplate \<and>
   (\<exists>u' w'. signInOrSignUp env0 world0 Google (Some ''g-carol'') ''carol@example.com'' bothTokens
               ''Carol'' None = (Inr u', w')
      \<and> users w' = [alice, bob, encryptFields u'] \<and> slug u' = ''Carol''
      \<and> googleId u' = Some ''g-carol''
      \<and> tokenFor Google (oAuthAccessToken u') = Some ''access-1''
      \<and> tokenFor Google (oAuthRefreshToken u') = Some ''refresh-1''
      \<and> createdAt u' = 1000 \<and> defaultTeamSlug u' = [] \<and> decryptedView u')"
proof -
  have h1: "''g-carol'' \<noteq> []" and h3: "''carol@example.com'' \<noteq> []" by simp_all
  have h2: "findOne (matches Google ''carol@example.com'' ''g-carol'') (users world0) = None"
    by (simp add: example_defs findOne_def matches_def)
  have h4: "slugAvailable (users world0) (generateSlug env0 (users world0) ''Carol'')"
    by (simp add: example_defs slugAvailable_def)
  have h5: "newObjectId env0 (users world0) \<notin> set (map uid (users world0))"
    by (simp add: example_defs)
  have h6: "find (templateNamed ''welcome'') (emailTemplates world0) = Some welcomeTemplate"
    by (simp add: example_defs templateNamed_def)
  have u: "users world0 = [alice, bob]" "generateSlug env0 [alice, bob] ''Carol'' = ''Carol''"
    "prop_value (accessToken bothTokens) = Some ''access-1''"
    "prop_value (refreshToken bothTokens) = Some ''refresh-1''" "now env0 = 1000"
    by (simp_all add: world0_def env0_def bothTokens_def)
  from signInOrSignUp_new_user [OF h1 h2 h3 h4 h5 h6, where oauthToken = bothTokens and av = None]
    h2 h4 h5 h6
  show ?thesis by (auto simp: u)
qed

text \<open>
  C2 as it is stated fails in two ways.  Without a \<^verbatim>\<open>welcome\<close> template the call throws
  instead of returning the new document; with an empty email the schema rejects the
  write, and no document is created.
\<close>

theorem signInOrSignUp_new_user_counterexample:
  "findOne (matches Google ''carol@example.com'' ''g-carol'') (users worldNoTemplate) = None \<and>
   fst (signInOrSignUp env0 worldNoTemplate Google (Some ''g-carol'') ''carol@example.com''
          bothTokens ''Carol'' None) = Inl WelcomeTemplateNotFound \<and>
   findOne (matches Google [] ''g-carol'') (users world0) = None \<and>
   signInOrSignUp env0 world0 Google (Some ''g-carol'') [] bothTokens ''Carol'' None
     = (Inl ValidationError, world0)"
  by (simp add: example_defs run_defs)

section \<open>Signing up by email\<close>

lemma signUp_existing:
  "findOneLean (hasEmail e) (users w) = Some u \<Longrightarrow>
   signUpByEmail env w i e = (Inl UserAlreadyExists, w)"
  by (simp add: signUpByEmail_def)

lemma signUp_new:
  "findOneLean (hasEmail e) (users w) = None \<Longrightarrow>
   signUpByEmail env w i e =
     (case save True (users w) (new_User i (now env) e None None (generateSlug env (users w) e) []) of
        Inl err \<Rightarrow> (Inl err, w)
      | Inr (newUser, us') \<Rightarrow>
          (case sendWelcome env (w\<lparr>users := us'\<rparr>) e e of
             (Inl err, w') \<Rightarrow> (Inl err, w')
           | (Inr x, w') \<Rightarrow> (Inr (pick_publicFields env newUser), w')))"
  by (simp add: signUpByEmail_def Let_def)

lemma findOneLean_None: "findOneLean P us = None \<longleftrightarrow> (\<forall>u\<in>set us. \<not> P u)"
  by (simp add: findOneLean_def find_None_iff_all)

lemma sendWelcome_users: "sendWelcome env w e un = (r, w') \<Longrightarrow> users w' = users w"
  by (cases "find (templateNamed ''welcome'') (emailTemplates w)")
     (auto simp: sendWelcome_missing sendWelcome_found)

text \<open>
  C9.  When there is no \<^verbatim>\<open>welcome\<close> template and the new document has been saved, the
  new-user branch of \<open>signInOrSignUp\<close> and \<open>signUpByEmail\<close> both throw
  \<^verbatim>\<open>'welcome Email template not found'\<close>, and the state they leave holds the new
  document at the end of the collection: the error does not undo the write.
\<close>

theorem welcome_template_missing:
  "(oid \<noteq> [] \<and> findOne (matches ty e oid) (users w) = None
      \<and> save True (users w) (newOAuthUser env (users w) ty oid e oauthToken dn av) = Inr (d, us')
      \<and> find (templateNamed ''welcome'') (emailTemplates w) = None
    \<longrightarrow> signInOrSignUp env w ty (Some oid) e oauthToken dn av
          = (Inl WelcomeTemplateNotFound, w\<lparr>users := us'\<rparr>)
        \<and> us' = users w @ [d] \<and> email d = e \<and> getId ty d = Some oid) \<and>
   (findOneLean (hasEmail e) (users w) = None
      \<and> save True (users w) (new_User i (now env) e None None (generateSlug env (users w) e) [])
          = Inr (d, us')
      \<and> find (templateNamed ''welcome'') (emailTemplates w) = None
    \<longrightarrow> signUpByEmail env w i e = (Inl WelcomeTemplateNotFound, w\<lparr>users := us'\<rparr>)
        \<and> us' = users w @ [d] \<and> email d = e \<and> uid d = i)"
proof (intro conjI impI)
  assume a: "oid \<noteq> [] \<and> findOne (matches ty e oid) (users w) = None
      \<and> save True (users w) (newOAuthUser env (users w) ty oid e oauthToken dn av) = Inr (d, us')
      \<and> find (templateNamed ''welcome'') (emailTemplates w) = None"
  then have "sendWelcome env (w\<lparr>users := us'\<rparr>) e dn = (Inl WelcomeTemplateNotFound, w\<lparr>users := us'\<rparr>)"
    by (simp add: sendWelcome_missing)
  with a show "signInOrSignUp env w ty (Some oid) e oauthToken dn av
          = (Inl WelcomeTemplateNotFound, w\<lparr>users := us'\<rparr>)"
    by (simp add: signIn_new)
  from a save_new_D [of "users w" "newOAuthUser env (users w) ty oid e oauthToken dn av" d us']
  show "us' = users w @ [d]" "email d = e" "getId ty d = Some oid"
    by (simp_all add: encrypt_frame newOAuthUser_fields newOAuthUser_ids)
next
  assume a: "findOneLean (hasEmail e) (users w) = None
      \<and> save True (users w) (new_User i (now env) e None None (generateSlug env (users w) e) [])
          = Inr (d, us')
      \<and> find (templateNamed ''welcome'') (emailTemplates w) = None"
  then have "sendWelcome env (w\<lparr>users := us'\<rparr>) e e = (Inl WelcomeTemplateNotFound, w\<lparr>users := us'\<rparr>)"
    by (simp add: sendWelcome_missing)
  with a show "signUpByEmail env w i e = (Inl WelcomeTemplateNotFound, w\<lparr>users := us'\<rparr>)"
    by (simp add: signUp_new)
  from a save_new_D [of "users w" "new_User i (now env) e None None (generateSlug env (users w) e) []" d us']
  show "us' = users w @ [d]" "email d = e" "uid d = i"
    by (simp_all add: encrypt_frame) (simp_all add: new_User_def)
qed

theorem welcome_template_missing_witness:
  "findOne (matches Google ''carol@example.com'' ''g-carol'') (users worldNoTemplate) = None \<and>
   find (templateNamed ''welcome'') (emailTemplates worldNoTemplate) = None \<and>
   (\<exists>d. signInOrSignUp env0 worldNoTemplate Google (Some ''g-carol'') ''carol@example.com''
           bothTokens ''Carol'' None
         = (Inl WelcomeTemplateNotFound,
            worldNoTemplate\<lparr>users := users worldNoTemplate @ [d]\<rparr>)
       \<and> email d = ''carol@example.com'' \<and> getId Google d = Some ''g-carol'') \<and>
   findOneLean (hasEmail ''carol@example.com'') (users worldNoTemplate) = None \<and>
   (\<exists>d. signUpByEmail env0 worldNoTemplate ''u3'' ''carol@example.com''
         = (Inl WelcomeTemplateNotFound,
            worldNoTemplate\<lparr>users := users worldNoTemplate @ [d]\<rparr>)
       \<and> email d = ''carol@example.com'' \<and> uid d = ''u3'')"
proof -
  let ?n = "newOAuthUser env0 (users worldNoTemplate) Google ''g-carol'' ''carol@example.com''
              bothTokens ''Carol'' None"
  let ?m = "new_User ''u3'' (now env0) ''carol@example.com'' None None
              (generateSlug env0 (users worldNoTemplate) ''carol@example.com'') []"
  have h1: "findOne (matches Google ''carol@example.com'' ''g-carol'') (users worldNoTemplate) = None"
    by (simp add: example_defs findOne_def matches_def)
  have h2: "find (templateNamed ''welcome'') (emailTemplates worldNoTemplate) = None"
    by (simp add: example_defs)
  have h3: "findOneLean (hasEmail ''carol@example.com'') (users worldNoTemplate) = None"
    by (simp add: example_defs findOneLean_def hasEmail_def)
  have s1: "save True (users worldNoTemplate) ?n
              = Inr (encryptFields ?n, users worldNoTemplate @ [encryptFields ?n])"
    by (rule save_new_ok)
       (simp_all add: example_defs newOAuthUser_def whenTruthy_def setAccessToken_def
          setRefreshToken_def required_ok_def unique_ok_def collides_def)
  have s2: "save True (users worldNoTemplate) ?m
              = Inr (encryptFields ?m, users worldNoTemplate @ [encryptFields ?m])"
    by (rule save_new_ok)
       (simp_all add: example_defs required_ok_def unique_ok_def collides_def)
  have o: "''g-carol'' \<noteq> []" by simp
  have a: "signInOrSignUp env0 worldNoTemplate Google (Some ''g-carol'') ''carol@example.com''
           bothTokens ''Carol'' None
         = (Inl WelcomeTemplateNotFound,
            worldNoTemplate\<lparr>users := users worldNoTemplate @ [encryptFields ?n]\<rparr>)
       \<and> users worldNoTemplate @ [encryptFields ?n] = users worldNoTemplate @ [encryptFields ?n]
       \<and> email (encryptFields ?n) = ''carol@example.com''
       \<and> getId Google (encryptFields ?n) = Some ''g-carol''"
    by (rule mp [OF conjunct1 [OF welcome_template_missing]]) (intro conjI o h1 s1 h2)
  have b: "signUpByEmail env0 worldNoTemplate ''u3'' ''carol@example.com''
         = (Inl WelcomeTemplateNotFound,
            worldNoTemplate\<lparr>users := users worldNoTemplate @ [encryptFields ?m]\<rparr>)
       \<and> users worldNoTemplate @ [encryptFields ?m] = users worldNoTemplate @ [encryptFields ?m]
       \<and> email (encryptFields ?m) = ''carol@example.com'' \<and> uid (encryptFields ?m) = ''u3''"
    by (rule mp [OF conjunct2 [OF welcome_template_missing]]) (intro conjI h3 s2 h2)
  from a have a': "\<exists>d. signInOrSignUp env0 worldNoTemplate Google (Some ''g-carol'')
           ''carol@example.com'' bothTokens ''Carol'' None
         = (Inl WelcomeTemplateNotFound,
            worldNoTemplate\<lparr>users := users worldNoTemplate @ [d]\<rparr>)
       \<and> email d = ''carol@example.com'' \<and> getId Google d = Some ''g-carol''" by blast
  from b have b': "\<exists>d. signUpByEmail env0 worldNoTemplate ''u3'' ''carol@example.com''
         = (Inl WelcomeTemplateNotFound,
            worldNoTemplate\<lparr>users := users worldNoTemplate @ [d]\<rparr>)
       \<and> email d = ''carol@example.com'' \<and> uid d = ''u3''" by blast
  from h1 h2 h3 a' b' show ?thesis by (intro conjI)
qed

lemma signUp_email_taken:
  "\<exists>u\<in>set (users w). email u = e \<Longrightarrow> signUpByEmail env w i e = (Inl UserAlreadyExists, w)"
proof -
  assume "\<exists>u\<in>set (users w). email u = e"
  then have "findOneLean (hasEmail e) (users w) \<noteq> None"
    by (simp add: findOneLean_None hasEmail_def)
  then obtain u where "findOneLean (hasEmail e) (users w) = Some u" by auto
  then show ?thesis by (rule signUp_existing)
qed

lemma signUp_success_D:
  assumes "signUpByEmail env w i e = (Inr p, w1)"
  shows "\<exists>d. users w1 = users w @ [d] \<and> uid d = i \<and> email d = e \<and> p = pick_publicFields env d
           \<and> save True (users w) (new_User i (now env) e None None (generateSlug env (users w) e) [])
                = Inr (d, users w @ [d])"
proof (cases "findOneLean (hasEmail e) (users w)")
  case (Some u)
  with assms show ?thesis by (simp add: signUp_existing)
next
  case None
  let ?n = "new_User i (now env) e None None (generateSlug env (users w) e) []"
  show ?thesis
  proof (cases "save True (users w) ?n")
    case (Inl err)
    with assms None show ?thesis by (simp add: signUp_new)
  next
    case (Inr q)
    obtain d us' where q: "q = (d, us')" by (cases q)
    from Inr q save_new_D [of "users w" ?n d us']
    have d: "d = encryptFields ?n" "us' = users w @ [d]" by simp_all
    obtain r w' where sw: "sendWelcome env (w\<lparr>users := us'\<rparr>) e e = (r, w')"
      by (cases "sendWelcome env (w\<lparr>users := us'\<rparr>) e e")
    from sendWelcome_users [OF sw] have u': "users w' = us'" by simp
    from assms None Inr q sw have "r = Inr () \<and> p = pick_publicFields env d \<and> w1 = w'"
      by (cases r) (simp_all add: signUp_new)
    with u' d Inr q show ?thesis
      by (simp add: encrypt_frame) (simp add: new_User_def)
  qed
qed

text \<open>
  C4.  When a stored user has the email, \<open>signUpByEmail\<close> throws
  \<^verbatim>\<open>'User already exists'\<close> and the state is the one it was given.  When it succeeds,
  the \<^verbatim>\<open>_id\<close> of the record it returns and of the one document it appended is the
  caller's \<^verbatim>\<open>uid\<close>, and any later sign-up with the same email, whatever its
  \<^verbatim>\<open>uid\<close> and environment, throws \<^verbatim>\<open>'User already exists'\<close>.
\<close>

theorem signUpByEmail_existing_email:
  "((\<exists>u\<in>set (users w). email u = e) \<longrightarrow> signUpByEmail env w i e = (Inl UserAlreadyExists, w)) \<and>
   (signUpByEmail env w i e = (Inr p, w1) \<longrightarrow>
       pub_id p = i \<and> pub_email p = e
     \<and> (\<exists>d. users w1 = users w @ [d] \<and> uid d = i \<and> email d = e)
     \<and> (\<forall>env' i'. signUpByEmail env' w1 i' e = (Inl UserAlreadyExists, w1)))"
proof (intro conjI impI)
  assume "\<exists>u\<in>set (users w). email u = e"
  then show "signUpByEmail env w i e = (Inl UserAlreadyExists, w)" by (rule signUp_email_taken)
next
  assume a: "signUpByEmail env w i e = (Inr p, w1)"
  from signUp_success_D [OF a] obtain d where
    d: "users w1 = users w @ [d]" "uid d = i" "email d = e" "p = pick_publicFields env d" by blast
  from d show "pub_id p = i" "pub_email p = e" by (simp_all add: pick_publicFields_def)
  from d show "\<exists>d. users w1 = users w @ [d] \<and> uid d = i \<and> email d = e" by blast
  from d have "\<exists>u\<in>set (users w1). email u = e" by simp
  then show "\<forall>env' i'. signUpByEmail env' w1 i' e = (Inl UserAlreadyExists, w1)"
    by (simp add: signUp_email_taken)
qed

theorem signUpByEmail_existing_email_witness:
  "(\<exists>u\<in>set (users world0). email u = ''alice@example.com'') \<and>
   signUpByEmail env0 world0 ''u3'' ''alice@example.com'' = (Inl UserAlreadyExists, world0) \<and>
   (\<exists>p w1. signUpByEmail env0 world0 ''u3'' ''carol@example.com'' = (Inr p, w1)
      \<and> pub_id p = ''u3'' \<and> pub_email p = ''carol@example.com''
      \<and> signUpByEmail env0 w1 ''u4'' ''carol@example.com'' = (Inl UserAlreadyExists, w1))"
proof -
  have h1: "\<exists>u\<in>set (users world0). email u = ''alice@example.com''"
    by (simp add: example_defs)
  obtain r w1 where call: "signUpByEmail env0 world0 ''u3'' ''carol@example.com'' = (r, w1)"
    by (cases "signUpByEmail env0 world0 ''u3'' ''carol@example.com''")
  have "\<exists>p. r = Inr p"
    using call by (auto simp add: example_defs run_defs)
  then obtain p where p: "r = Inr p" ..
  with call have call': "signUpByEmail env0 world0 ''u3'' ''carol@example.com'' = (Inr p, w1)"
    by simp
  have a: "signUpByEmail env0 world0 ''u3'' ''alice@example.com'' = (Inl UserAlreadyExists, world0)"
    by (rule mp [OF conjunct1 [OF signUpByEmail_existing_email]]) (rule h1)
  have b: "pub_id p = ''u3'' \<and> pub_email p = ''carol@example.com''
     \<and> (\<exists>d. users w1 = users world0 @ [d] \<and> uid d = ''u3'' \<and> email d = ''carol@example.com'')
     \<and> (\<forall>env' i'. signUpByEmail env' w1 i' ''carol@example.com'' = (Inl UserAlreadyExists, w1))"
    by (rule mp [OF conjunct2 [OF signUpByEmail_existing_email]]) (rule call')
  from h1 a b call' show ?thesis by blast
qed

section \<open>The outcomes of a call and their effects\<close>

lemma sendWelcome_found':
  "find (templateNamed ''welcome'') (emailTemplates w) = Some t \<Longrightarrow>
   sendWelcome env w e un =
     (Inr (), w\<lparr>effects := effects w
        @ welcomeEffects env (hasInvitation w e) e (getEmailTemplate env ''welcome'' un t)\<rparr>)"
  by (simp add: sendWelcome_found welcomeEffects_def)

lemma newEffects_same [simp]: "effects w' = effects w \<Longrightarrow> newEffects w w' = []"
  by (simp add: newEffects_def)

lemma newEffects_append [simp]: "effects w' = effects w @ xs \<Longrightarrow> newEffects w w' = xs"
  by (simp add: newEffects_def)

lemma emailsSent_welcomeEffects:
  "emailsSent (welcomeEffects env hasInv e template) =
     (if hasInv then [] else [welcomeMail env e template])"
  by (simp add: welcomeEffects_def)

lemma failedSend_welcomeEffects:
  "failedSend env (welcomeEffects env hasInv e template) \<Longrightarrow>
   LogError ''Email sending error:'' \<in> set (welcomeEffects env hasInv e template)"
  by (auto simp: failedSend_def welcomeEffects_def split: if_splits)

lemma failedSubscribe_welcomeEffects:
  "failedSubscribe env (welcomeEffects env hasInv e template) \<Longrightarrow>
   LogError ''Mailchimp error:'' \<in> set (welcomeEffects env hasInv e template)"
  by (auto simp: failedSubscribe_def welcomeEffects_def split: if_splits)

lemma sendWelcome_outcome:
  assumes "sendWelcome env w e un = (r, w')"
  shows "(r = Inl WelcomeTemplateNotFound \<and> w' = w) \<or>
         (\<exists>t. find (templateNamed ''welcome'') (emailTemplates w) = Some t \<and> r = Inr ()
            \<and> w' = w\<lparr>effects := effects w
                 @ welcomeEffects env (hasInvitation w e) e (getEmailTemplate env ''welcome'' un t)\<rparr>)"
proof (cases "find (templateNamed ''welcome'') (emailTemplates w)")
  case None
  with assms show ?thesis by (simp add: sendWelcome_missing)
next
  case (Some t)
  with assms show ?thesis by (auto simp: sendWelcome_found')
qed

lemma signIn_no_oauthId:
  "\<not> truthy oauthId \<Longrightarrow>
     signInOrSignUp env w ty oauthId e oauthToken dn av = (Inl OauthIdRequired, w)"
  by (simp add: signInOrSignUp_def truthy_def split: option.splits)

lemma signIn_outcome:
  assumes call: "signInOrSignUp env w ty oauthId e tok dn av = (r, w')"
  shows "effects w' = effects w \<or>
         (\<exists>u' t. r = Inr u' \<and> users w' = users w @ [encryptFields u']
            \<and> findOne (matches ty e (case oauthId of Some oid \<Rightarrow> oid | None \<Rightarrow> [])) (users w) = None
            \<and> effects w' = effects w
                 @ welcomeEffects env (hasInvitation w e) e (getEmailTemplate env ''welcome'' dn t))"
proof (cases "truthy oauthId")
  case False
  with call show ?thesis by (simp add: signIn_no_oauthId)
next
  case True
  then obtain oid where oid: "oauthId = Some oid" "oid \<noteq> []" by (auto dest: truthy_Some)
  show ?thesis
  proof (cases "findOne (matches ty e oid) (users w)")
    case (Some user)
    note found = this
    show ?thesis
    proof (cases "isEmpty tok")
      case True
      with call oid found show ?thesis by (simp add: signInOrSignUp_def)
    next
      case False
      from call have "effects w' = effects w"
        unfolding oid(1) signIn_existing [OF oid(2) found False]
        by (auto split: sum.splits prod.splits)
      then show ?thesis ..
    qed
  next
    case None
    let ?n = "newOAuthUser env (users w) ty oid e tok dn av"
    note new = signIn_new [OF oid(2) None, of env tok dn av]
    show ?thesis
    proof (cases "save True (users w) ?n")
      case (Inl err)
      with call new oid show ?thesis by simp
    next
      case (Inr q)
      obtain d us' where q: "q = (d, us')" by (cases q)
      from Inr q save_new_D [of "users w" ?n d us']
      have d: "d = encryptFields ?n" "us' = users w @ [d]" by simp_all
      obtain r0 w0 where sw: "sendWelcome env (w\<lparr>users := us'\<rparr>) e dn = (r0, w0)"
        by (cases "sendWelcome env (w\<lparr>users := us'\<rparr>) e dn")
      have ret: "stripEncryptionFieldMarkers (decryptFieldsSync d) = ?n"
        by (simp add: d view_of_saved decrypt_view newOAuthUser_view)
      from sendWelcome_outcome [OF sw] show ?thesis
      proof
        assume "r0 = Inl WelcomeTemplateNotFound \<and> w0 = w\<lparr>users := us'\<rparr>"
        with call new oid Inr q sw have "w' = w\<lparr>users := us'\<rparr>" by simp
        then show ?thesis by simp
      next
        assume "\<exists>t. find (templateNamed ''welcome'') (emailTemplates (w\<lparr>users := us'\<rparr>)) = Some t
            \<and> r0 = Inr ()
            \<and> w0 = w\<lparr>users := us'\<rparr>\<lparr>effects := effects (w\<lparr>users := us'\<rparr>)
                 @ welcomeEffects env (hasInvitation (w\<lparr>users := us'\<rparr>) e) e
                     (getEmailTemplate env ''welcome'' dn t)\<rparr>"
        then obtain t where t: "r0 = Inr ()"
            "w0 = w\<lparr>users := us'\<rparr>\<lparr>effects := effects (w\<lparr>users := us'\<rparr>)
                 @ welcomeEffects env (hasInvitation (w\<lparr>users := us'\<rparr>) e) e
                     (getEmailTemplate env ''welcome'' dn t)\<rparr>" by blast
        from call new oid Inr q sw t ret have "r = Inr ?n" "w' = w0" by simp_all
        with t d None oid have "r = Inr ?n \<and> users w' = users w @ [encryptFields ?n]
            \<and> findOne (matches ty e (case oauthId of Some oid \<Rightarrow> oid | None \<Rightarrow> [])) (users w) = None
            \<and> effects w' = effects w
                 @ welcomeEffects env (hasInvitation w e) e (getEmailTemplate env ''welcome'' dn t)"
          by simp
        then show ?thesis by blast
      qed
    qed
  qed
qed

lemma signUp_outcome:
  assumes call: "signUpByEmail env w i e = (r, w')"
  shows "effects w' = effects w \<or>
         (\<exists>d t. r = Inr (pick_publicFields env d) \<and> users w' = users w @ [d] \<and> uid d = i
            \<and> email d = e
            \<and> effects w' = effects w
                 @ welcomeEffects env (hasInvitation w e) e (getEmailTemplate env ''welcome'' e t))"
proof (cases "findOneLean (hasEmail e) (users w)")
  case (Some u)
  with call show ?thesis by (simp add: signUp_existing)
next
  case None
  let ?n = "new_User i (now env) e None None (generateSlug env (users w) e) []"
  note new = signUp_new [OF None, of env i]
  show ?thesis
  proof (cases "save True (users w) ?n")
    case (Inl err)
    with call new show ?thesis by simp
  next
    case (Inr q)
    obtain d us' where q: "q = (d, us')" by (cases q)
    from Inr q save_new_D [of "users w" ?n d us']
    have d: "d = encryptFields ?n" "us' = users w @ [d]" by simp_all
    have di: "uid d = i" "email d = e" by (simp_all add: d encrypt_frame) (simp_all add: new_User_def)
    obtain r0 w0 where sw: "sendWelcome env (w\<lparr>users := us'\<rparr>) e e = (r0, w0)"
      by (cases "sendWelcome env (w\<lparr>users := us'\<rparr>) e e")
    from sendWelcome_outcome [OF sw] show ?thesis
    proof
      assume "r0 = Inl WelcomeTemplateNotFound \<and> w0 = w\<lparr>users := us'\<rparr>"
      with call new Inr q sw have "w' = w\<lparr>users := us'\<rparr>" by simp
      then show ?thesis by simp
    next
      assume "\<exists>t. find (templateNamed ''welcome'') (emailTemplates (w\<lparr>users := us'\<rparr>)) = Some t
          \<and> r0 = Inr ()
          \<and> w0 = w\<lparr>users := us'\<rparr>\<lparr>effects := effects (w\<lparr>users := us'\<rparr>)
               @ welcomeEffects env (hasInvitation (w\<lparr>users := us'\<rparr>) e) e
                   (getEmailTemplate env ''welcome'' e t)\<rparr>"
      then obtain t where t: "r0 = Inr ()"
          "w0 = w\<lparr>users := us'\<rparr>\<lparr>effects := effects (w\<lparr>users := us'\<rparr>)
               @ welcomeEffects env (hasInvitation (w\<lparr>users := us'\<rparr>) e) e
                   (getEmailTemplate env ''welcome'' e t)\<rparr>" by blast
      from call new Inr q sw t have "r = Inr (pick_publicFields env d)" "w' = w0" by simp_all
      with t d di have "r = Inr (pick_publicFields env d) \<and> users w' = users w @ [d] \<and> uid d = i
          \<and> email d = e
          \<and> effects w' = effects w
               @ welcomeEffects env (hasInvitation w e) e (getEmailTemplate env ''welcome'' e t)"
        by simp
      then show ?thesis by blast
    qed
  qed
qed

lemma mail_to_welcomeMail: "mail_to (welcomeMail env e template) = [e]"
  by (simp add: welcomeMail_def)

lemma signIn_new_success:
  assumes none: "findOne (matches ty e oid) (users w) = None"
      and call: "signInOrSignUp env w ty (Some oid) e oauthToken dn av = (Inr u', w')"
  shows "\<exists>t. find (templateNamed ''welcome'') (emailTemplates w) = Some t
           \<and> users w' = users w @ [encryptFields u']
           \<and> effects w' = effects w
                @ welcomeEffects env (hasInvitation w e) e (getEmailTemplate env ''welcome'' dn t)"
proof -
  have oid: "oid \<noteq> []"
  proof
    assume "oid = []"
    with call show False by (simp add: signInOrSignUp_def)
  qed
  let ?n = "newOAuthUser env (users w) ty oid e oauthToken dn av"
  note new = call [unfolded signIn_new [OF oid none]]
  show ?thesis
  proof (cases "save True (users w) ?n")
    case (Inl err)
    with new show ?thesis by simp
  next
    case (Inr q)
    obtain d us' where q: "q = (d, us')" by (cases q)
    from Inr q save_new_D [of "users w" ?n d us']
    have d: "d = encryptFields ?n" "us' = users w @ [d]" by simp_all
    obtain r0 w0 where sw: "sendWelcome env (w\<lparr>users := us'\<rparr>) e dn = (r0, w0)"
      by (cases "sendWelcome env (w\<lparr>users := us'\<rparr>) e dn")
    have ret: "stripEncryptionFieldMarkers (decryptFieldsSync d) = ?n"
      by (simp add: d view_of_saved decrypt_view newOAuthUser_view)
    from new Inr q sw ret have r0: "r0 = Inr ()" and w0: "w0 = w'" and u': "u' = ?n"
      by (cases r0; simp)+
    from sendWelcome_outcome [OF sw] r0 obtain t where
      t: "find (templateNamed ''welcome'') (emailTemplates w) = Some t"
         "w0 = w\<lparr>users := us'\<rparr>\<lparr>effects := effects (w\<lparr>users := us'\<rparr>)
           @ welcomeEffects env (hasInvitation (w\<lparr>users := us'\<rparr>) e) e
               (getEmailTemplate env ''welcome'' dn t)\<rparr>" by auto
    from t w0 d u' have "find (templateNamed ''welcome'') (emailTemplates w) = Some t
           \<and> users w' = users w @ [encryptFields u']
           \<and> effects w' = effects w
                @ welcomeEffects env (hasInvitation w e) e (getEmailTemplate env ''welcome'' dn t)"
      by auto
    then show ?thesis ..
  qed
qed

lemma signUp_success:
  assumes call: "signUpByEmail env w i e = (Inr p, w')"
  shows "\<exists>t d. find (templateNamed ''welcome'') (emailTemplates w) = Some t
           \<and> users w' = users w @ [d] \<and> uid d = i \<and> email d = e \<and> p = pick_publicFields env d
           \<and> effects w' = effects w
                @ welcomeEffects env (hasInvitation w e) e (getEmailTemplate env ''welcome'' e t)"
proof (cases "findOneLean (hasEmail e) (users w)")
  case (Some u)
  with call show ?thesis by (simp add: signUp_existing)
next
  case None
  let ?n = "new_User i (now env) e None None (generateSlug env (users w) e) []"
  note new = call [unfolded signUp_new [OF None]]
  show ?thesis
  proof (cases "save True (users w) ?n")
    case (Inl err)
    with new show ?thesis by simp
  next
    case (Inr q)
    obtain d us' where q: "q = (d, us')" by (cases q)
    from Inr q save_new_D [of "users w" ?n d us']
    have d: "d = encryptFields ?n" "us' = users w @ [d]" by simp_all
    have di: "uid d = i" "email d = e" by (simp_all add: d encrypt_frame) (simp_all add: new_User_def)
    obtain r0 w0 where sw: "sendWelcome env (w\<lparr>users := us'\<rparr>) e e = (r0, w0)"
      by (cases "sendWelcome env (w\<lparr>users := us'\<rparr>) e e")
    from new Inr q sw have r0: "r0 = Inr ()" and w0: "w0 = w'" and p: "p = pick_publicFields env d"
      by (cases r0; simp)+
    from sendWelcome_outcome [OF sw] r0 obtain t where
      t: "find (templateNamed ''welcome'') (emailTemplates w) = Some t"
         "w0 = w\<lparr>users := us'\<rparr>\<lparr>effects := effects (w\<lparr>users := us'\<rparr>)
           @ welcomeEffects env (hasInvitation (w\<lparr>users := us'\<rparr>) e) e
               (getEmailTemplate env ''welcome'' e t)\<rparr>" by auto
    from t w0 d di p have "find (templateNamed ''welcome'') (emailTemplates w) = Some t
           \<and> users w' = users w @ [d] \<and> uid d = i \<and> email d = e \<and> p = pick_publicFields env d
           \<and> effects w' = effects w
                @ welcomeEffects env (hasInvitation w e) e (getEmailTemplate env ''welcome'' e t)"
      by auto
    then show ?thesis by blast
  qed
qed

text \<open>
  C6, as amended.  In \<open>signInOrSignUp\<close> and in \<open>signUpByEmail\<close>, when an invitation
  exists for the email no welcome email is sent, whatever the outcome of the call.  When
  the call creates the account and returns (the new-user branch of \<open>signInOrSignUp\<close>,
  or \<open>signUpByEmail\<close>), \<^verbatim>\<open>sendEmail\<close> is called if and only if no invitation exists
  for the email, and the email goes to that address.
\<close>

theorem welcome_email_unless_invited:
  "(signInOrSignUp env w ty oauthId e oauthToken dn av = (r, w') \<and> hasInvitation w e \<longrightarrow>
      emailsSent (newEffects w w') = []) \<and>
   (signUpByEmail env w i e = (r2, w2) \<and> hasInvitation w e \<longrightarrow>
      emailsSent (newEffects w w2) = []) \<and>
   (findOne (matches ty e oid) (users w) = None
      \<and> signInOrSignUp env w ty (Some oid) e oauthToken dn av = (Inr u', w') \<longrightarrow>
      (emailsSent (newEffects w w') \<noteq> [] \<longleftrightarrow> \<not> hasInvitation w e)
    \<and> (\<forall>m\<in>set (emailsSent (newEffects w w')). mail_to m = [e])) \<and>
   (signUpByEmail env w i e = (Inr p, w2) \<longrightarrow>
      (emailsSent (newEffects w w2) \<noteq> [] \<longleftrightarrow> \<not> hasInvitation w e)
    \<and> (\<forall>m\<in>set (emailsSent (newEffects w w2)). mail_to m = [e]))"
proof (intro conjI impI)
  assume a: "signInOrSignUp env w ty oauthId e oauthToken dn av = (r, w') \<and> hasInvitation w e"
  with signIn_outcome [of env w ty oauthId e oauthToken dn av r w']
  show "emailsSent (newEffects w w') = []"
    by (auto simp: emailsSent_welcomeEffects)
next
  assume a: "signUpByEmail env w i e = (r2, w2) \<and> hasInvitation w e"
  with signUp_outcome [of env w i e r2 w2]
  show "emailsSent (newEffects w w2) = []"
    by (auto simp: emailsSent_welcomeEffects)
next
  assume a: "findOne (matches ty e oid) (users w) = None
      \<and> signInOrSignUp env w ty (Some oid) e oauthToken dn av = (Inr u', w')"
  then have none: "findOne (matches ty e oid) (users w) = None"
    and call: "signInOrSignUp env w ty (Some oid) e oauthToken dn av = (Inr u', w')" by simp_all
  from signIn_new_success [OF none call] obtain t where eff: "effects w' = effects w
         @ welcomeEffects env (hasInvitation w e) e (getEmailTemplate env ''welcome'' dn t)"
    by blast
  show "emailsSent (newEffects w w') \<noteq> [] \<longleftrightarrow> \<not> hasInvitation w e"
    by (simp add: newEffects_append [OF eff] emailsSent_welcomeEffects)
  show "\<forall>m\<in>set (emailsSent (newEffects w w')). mail_to m = [e]"
    by (simp add: newEffects_append [OF eff] emailsSent_welcomeEffects mail_to_welcomeMail)
next
  assume call: "signUpByEmail env w i e = (Inr p, w2)"
  from signUp_success [OF call]
  obtain t where eff: "effects w2 = effects w
         @ welcomeEffects env (hasInvitation w e) e (getEmailTemplate env ''welcome'' e t)"
    by blast
  show "emailsSent (newEffects w w2) \<noteq> [] \<longleftrightarrow> \<not> hasInvitation w e"
    by (simp add: newEffects_append [OF eff] emailsSent_welcomeEffects)
  show "\<forall>m\<in>set (emailsSent (newEffects w w2)). mail_to m = [e]"
    by (simp add: newEffects_append [OF eff] emailsSent_welcomeEffects mail_to_welcomeMail)
qed

theorem welcome_email_unless_invited_witness:
  "hasInvitation worldInvited ''carol@example.com'' \<and>
   emailsSent (newEffects worldInvited (snd (signInOrSignUp env0 worldInvited Google
      (Some ''g-carol'') ''carol@example.com'' bothTokens ''Carol'' None))) = [] \<and>
   emailsSent (newEffects worldInvited
      (snd (signUpByEmail env0 worldInvited ''u3'' ''carol@example.com''))) = [] \<and>
   \<not> hasInvitation world0 ''carol@example.com'' \<and>
   emailsSent (newEffects world0 (snd (signInOrSignUp env0 world0 Google
      (Some ''g-carol'') ''carol@example.com'' bothTokens ''Carol'' None))) \<noteq> [] \<and>
   emailsSent (newEffects world0
      (snd (signUpByEmail env0 world0 ''u3'' ''carol@example.com''))) \<noteq> []"
proof -
  let ?ci = "signInOrSignUp env0 worldInvited Google (Some ''g-carol'') ''carol@example.com''
               bothTokens ''Carol'' None"
  let ?si = "signUpByEmail env0 worldInvited ''u3'' ''carol@example.com''"
  let ?c = "signInOrSignUp env0 world0 Google (Some ''g-carol'') ''carol@example.com''
               bothTokens ''Carol'' None"
  let ?s = "signUpByEmail env0 world0 ''u3'' ''carol@example.com''"
  have inv: "hasInvitation worldInvited ''carol@example.com''"
    by (simp add: example_defs hasInvitation_def)
  have ninv: "\<not> hasInvitation world0 ''carol@example.com''"
    by (simp add: example_defs hasInvitation_def)
  have ci: "?ci = (fst ?ci, snd ?ci)" and si: "?si = (fst ?si, snd ?si)" by simp_all
  have none: "findOne (matches Google ''carol@example.com'' ''g-carol'') (users world0) = None"
    by (simp add: example_defs findOne_def matches_def)
  have "\<exists>u'. fst ?c = Inr u'" by (simp add: example_defs run_defs)
  then obtain u' where "fst ?c = Inr u'" ..
  then have c: "?c = (Inr u', snd ?c)" by (metis prod.collapse)
  have "\<exists>p. fst ?s = Inr p" by (simp add: example_defs run_defs)
  then obtain p where "fst ?s = Inr p" ..
  then have s: "?s = (Inr p, snd ?s)" by (metis prod.collapse)
  note T = welcome_email_unless_invited
  have a: "emailsSent (newEffects worldInvited (snd ?ci)) = []"
    by (rule mp [OF conjunct1 [OF T] conjI [OF ci inv]])
  have b: "emailsSent (newEffects worldInvited (snd ?si)) = []"
    by (rule mp [OF conjunct1 [OF conjunct2 [OF T]] conjI [OF si inv]])
  have "(emailsSent (newEffects world0 (snd ?c)) \<noteq> [] \<longleftrightarrow> \<not> hasInvitation world0 ''carol@example.com'')
     \<and> (\<forall>m\<in>set (emailsSent (newEffects world0 (snd ?c))). mail_to m = [''carol@example.com''])"
    by (rule mp [OF conjunct1 [OF conjunct2 [OF conjunct2 [OF T]]] conjI [OF none c]])
  with ninv have d: "emailsSent (newEffects world0 (snd ?c)) \<noteq> []" by blast
  have "(emailsSent (newEffects world0 (snd ?s)) \<noteq> [] \<longleftrightarrow> \<not> hasInvitation world0 ''carol@example.com'')
     \<and> (\<forall>m\<in>set (emailsSent (newEffects world0 (snd ?s))). mail_to m = [''carol@example.com''])"
    by (rule mp [OF conjunct2 [OF conjunct2 [OF conjunct2 [OF T]]] s])
  with ninv have e: "emailsSent (newEffects world0 (snd ?s)) \<noteq> []" by blast
  from inv a b ninv d e show ?thesis by (intro conjI)
qed

text \<open>
  C6 as it is stated fails without a \<^verbatim>\<open>welcome\<close> template: no invitation exists for the
  email, and yet no welcome email is sent, because the call throws before the send.
\<close>

theorem welcome_email_unless_invited_counterexample:
  "\<not> hasInvitation worldNoTemplate ''carol@example.com'' \<and>
   findOne (matches Google ''carol@example.com'' ''g-carol'') (users worldNoTemplate) = None \<and>
   emailsSent (newEffects worldNoTemplate (snd (signInOrSignUp env0 worldNoTemplate Google
      (Some ''g-carol'') ''carol@example.com'' bothTokens ''Carol'' None))) = [] \<and>
   emailsSent (newEffects worldNoTemplate
      (snd (signUpByEmail env0 worldNoTemplate ''u3'' ''carol@example.com''))) = []"
  by (simp add: example_defs run_defs newEffects_def)

text \<open>
  C8.  When \<^verbatim>\<open>sendEmail\<close> or \<^verbatim>\<open>subscribe\<close> is called and fails during
  \<open>signInOrSignUp\<close> or \<open>signUpByEmail\<close>, the call still returns the record of the user
  it created, which is in the collection, and each failure is logged:
  \<^verbatim>\<open>'Email sending error:'\<close> for the send, \<^verbatim>\<open>'Mailchimp error:'\<close> for the subscription.
\<close>

theorem welcome_failures_do_not_propagate:
  "(signInOrSignUp env w ty oauthId e oauthToken dn av = (r, w')
      \<and> (failedSend env (newEffects w w') \<or> failedSubscribe env (newEffects w w')) \<longrightarrow>
      (\<exists>u'. r = Inr u' \<and> users w' = users w @ [encryptFields u'])
    \<and> (failedSend env (newEffects w w') \<longrightarrow>
          LogError ''Email sending error:'' \<in> set (newEffects w w'))
    \<and> (failedSubscribe env (newEffects w w') \<longrightarrow>
          LogError ''Mailchimp error:'' \<in> set (newEffects w w'))) \<and>
   (signUpByEmail env w i e = (r2, w2)
      \<and> (failedSend env (newEffects w w2) \<or> failedSubscribe env (newEffects w w2)) \<longrightarrow>
      (\<exists>d. r2 = Inr (pick_publicFields env d) \<and> users w2 = users w @ [d] \<and> uid d = i)
    \<and> (failedSend env (newEffects w w2) \<longrightarrow>
          LogError ''Email sending error:'' \<in> set (newEffects w w2))
    \<and> (failedSubscribe env (newEffects w w2) \<longrightarrow>
          LogError ''Mailchimp error:'' \<in> set (newEffects w w2)))"
proof (intro conjI impI)
  assume a: "signInOrSignUp env w ty oauthId e oauthToken dn av = (r, w')
      \<and> (failedSend env (newEffects w w') \<or> failedSubscribe env (newEffects w w'))"
  then have call: "signInOrSignUp env w ty oauthId e oauthToken dn av = (r, w')" ..
  from a have "newEffects w w' \<noteq> []" by (auto simp: failedSend_def failedSubscribe_def)
  then have "effects w' \<noteq> effects w" by (auto simp: newEffects_def)
  with signIn_outcome [OF call] obtain u' t where
    u': "r = Inr u'" "users w' = users w @ [encryptFields u']"
    and eff: "effects w' = effects w
         @ welcomeEffects env (hasInvitation w e) e (getEmailTemplate env ''welcome'' dn t)"
    by blast
  from u' show "\<exists>u'. r = Inr u' \<and> users w' = users w @ [encryptFields u']" by blast
  {
    assume "failedSend env (newEffects w w')"
    then show "LogError ''Email sending error:'' \<in> set (newEffects w w')"
      unfolding newEffects_append [OF eff] by (rule failedSend_welcomeEffects)
  }
  {
    assume "failedSubscribe env (newEffects w w')"
    then show "LogError ''Mailchimp error:'' \<in> set (newEffects w w')"
      unfolding newEffects_append [OF eff] by (rule failedSubscribe_welcomeEffects)
  }
next
  assume a: "signUpByEmail env w i e = (r2, w2)
      \<and> (failedSend env (newEffects w w2) \<or> failedSubscribe env (newEffects w w2))"
  then have call: "signUpByEmail env w i e = (r2, w2)" ..
  from a have "newEffects w w2 \<noteq> []" by (auto simp: failedSend_def failedSubscribe_def)
  then have "effects w2 \<noteq> effects w" by (auto simp: newEffects_def)
  with signUp_outcome [OF call] obtain d t where
    d: "r2 = Inr (pick_publicFields env d)" "users w2 = users w @ [d]" "uid d = i"
    and eff: "effects w2 = effects w
         @ welcomeEffects env (hasInvitation w e) e (getEmailTemplate env ''welcome'' e t)"
    by blast
  from d show "\<exists>d. r2 = Inr (pick_publicFields env d) \<and> users w2 = users w @ [d] \<and> uid d = i"
    by blast
  {
    assume "failedSend env (newEffects w w2)"
    then show "LogError ''Email sending error:'' \<in> set (newEffects w w2)"
      unfolding newEffects_append [OF eff] by (rule failedSend_welcomeEffects)
  }
  {
    assume "failedSubscribe env (newEffects w w2)"
    then show "LogError ''Mailchimp error:'' \<in> set (newEffects w w2)"
      unfolding newEffects_append [OF eff] by (rule failedSubscribe_welcomeEffects)
  }
qed

theorem welcome_failures_do_not_propagate_witness:
  "failedSend envFailing (newEffects world0 (snd (signInOrSignUp envFailing world0 Google
      (Some ''g-carol'') ''carol@example.com'' bothTokens ''Carol'' None))) \<and>
   failedSubscribe envFailing (newEffects world0 (snd (signInOrSignUp envFailing world0 Google
      (Some ''g-carol'') ''carol@example.com'' bothTokens ''Carol'' None))) \<and>
   (\<exists>u'. fst (signInOrSignUp envFailing world0 Google
      (Some ''g-carol'') ''carol@example.com'' bothTokens ''Carol'' None) = Inr u') \<and>
   LogError ''Email sending error:'' \<in> set (newEffects world0 (snd (signInOrSignUp envFailing
      world0 Google (Some ''g-carol'') ''carol@example.com'' bothTokens ''Carol'' None))) \<and>
   LogError ''Mailchimp error:'' \<in> set (newEffects world0 (snd (signInOrSignUp envFailing
      world0 Google (Some ''g-carol'') ''carol@example.com'' bothTokens ''Carol'' None))) \<and>
   failedSend envFailing
     (newEffects world0 (snd (signUpByEmail envFailing world0 ''u3'' ''carol@example.com''))) \<and>
   (\<exists>d. fst (signUpByEmail envFailing world0 ''u3'' ''carol@example.com'')
          = Inr (pick_publicFields envFailing d)) \<and>
   LogError ''Email sending error:''
     \<in> set (newEffects world0 (snd (signUpByEmail envFailing world0 ''u3'' ''carol@example.com''))) \<and>
   LogError ''Mailchimp error:''
     \<in> set (newEffects world0 (snd (signUpByEmail envFailing world0 ''u3'' ''carol@example.com'')))"
proof -
  let ?c = "signInOrSignUp envFailing world0 Google (Some ''g-carol'') ''carol@example.com''
              bothTokens ''Carol'' None"
  let ?s = "signUpByEmail envFailing world0 ''u3'' ''carol@example.com''"
  have c: "?c = (fst ?c, snd ?c)" and s: "?s = (fst ?s, snd ?s)" by simp_all
  have fc: "failedSend envFailing (newEffects world0 (snd ?c))"
    by (simp add: example_defs run_defs newEffects_def failedSend_def)
  have gc: "failedSubscribe envFailing (newEffects world0 (snd ?c))"
    by (simp add: example_defs run_defs newEffects_def failedSubscribe_def)
  have fs: "failedSend envFailing (newEffects world0 (snd ?s))"
    by (simp add: example_defs run_defs newEffects_def failedSend_def)
  have gs: "failedSubscribe envFailing (newEffects world0 (snd ?s))"
    by (simp add: example_defs run_defs newEffects_def failedSubscribe_def)
  have a: "(\<exists>u'. fst ?c = Inr u' \<and> users (snd ?c) = users world0 @ [encryptFields u'])
    \<and> (failedSend envFailing (newEffects world0 (snd ?c)) \<longrightarrow>
          LogError ''Email sending error:'' \<in> set (newEffects world0 (snd ?c)))
    \<and> (failedSubscribe envFailing (newEffects world0 (snd ?c)) \<longrightarrow>
          LogError ''Mailchimp error:'' \<in> set (newEffects world0 (snd ?c)))"
    by (rule mp [OF conjunct1 [OF welcome_failures_do_not_propagate] conjI [OF c disjI1 [OF fc]]])
  have b: "(\<exists>d. fst ?s = Inr (pick_publicFields envFailing d)
              \<and> users (snd ?s) = users world0 @ [d] \<and> uid d = ''u3'')
    \<and> (failedSend envFailing (newEffects world0 (snd ?s)) \<longrightarrow>
          LogError ''Email sending error:'' \<in> set (newEffects world0 (snd ?s)))
    \<and> (failedSubscribe envFailing (newEffects world0 (snd ?s)) \<longrightarrow>
          LogError ''Mailchimp error:'' \<in> set (newEffects world0 (snd ?s)))"
    by (rule mp [OF conjunct2 [OF welcome_failures_do_not_propagate] conjI [OF s disjI1 [OF fs]]])
  from a b fc gc fs gs show ?thesis by blast
qed

section \<open>The collection stays well formed\<close>

text \<open>
  The empty collection is well formed, and a write that the schema accepts keeps the
  collection well formed; so do \<open>signInOrSignUp\<close> and \<open>signUpByEmail\<close>, whatever
  they return.
\<close>

lemma wf_users_empty: "wf_users []"
  by (simp add: wf_users_def)

lemma wf_users_iff:
  "wf_users us \<longleftrightarrow> distinct (map uid us) \<and> (\<forall>u\<in>set us. required_ok u)
     \<and> (\<forall>u\<in>set us. \<forall>v\<in>set us. uid v = uid u \<or> \<not> collides v u)"
  by (simp add: wf_users_def list_all_iff)

lemma collides_sym: "collides v u \<longleftrightarrow> collides u v"
  by (auto simp: collides_def)

lemma collides_encrypt:
  "collides v (encryptFields u) = collides v u" "collides (encryptFields u) v = collides u v"
  by (simp_all add: collides_def encryptFields_def)

lemma required_ok_encrypt: "required_ok (encryptFields u) = required_ok u"
  by (simp add: required_ok_def encryptFields_def)

lemma save_wf:
  assumes wf: "wf_users us" and saved: "save isNew us u = Inr (d, us')"
  shows "wf_users us'"
proof (cases isNew)
  case True
  with saved save_new_D [of us u d us']
  have d: "d = encryptFields u" "us' = us @ [d]" "required_ok u" "uid u \<notin> set (map uid us)"
    "unique_ok us u" by simp_all
  from d(5) have nc: "\<forall>v\<in>set us. \<not> collides v d \<and> \<not> collides d v"
    by (simp add: unique_ok_def list_all_iff d(1) collides_encrypt collides_sym [of u])
  from wf d(3,4) nc show ?thesis
    unfolding d(2) wf_users_iff
    by (auto simp: d(1) encrypt_frame required_ok_encrypt)
next
  case False
  with saved save_existing_D [of us u d us']
  have d: "d = encryptFields u" "us' = map (\<lambda>v. if uid v = uid u then d else v) us" by simp_all
  from saved False have ok: "required_ok u" "unique_ok (filter (\<lambda>v. uid v \<noteq> uid u) us) u"
    by (auto simp: save_def Let_def required_ok_encrypt encrypt_frame collides_encrypt unique_ok_def
             split: if_splits)
  from ok(2) have nc: "\<forall>v\<in>set us. uid v \<noteq> uid u \<longrightarrow> \<not> collides v d \<and> \<not> collides d v"
    by (simp add: unique_ok_def list_all_iff d(1) collides_encrypt collides_sym [of u])
  have ids: "map uid us' = map uid us" by (simp add: d encrypt_frame)
  have uidd: "uid d = uid u" by (simp add: d(1) encrypt_frame)
  have mem: "x \<in> set us' \<Longrightarrow> x = d \<or> (x \<in> set us \<and> uid x \<noteq> uid u)" for x
    by (auto simp: d(2))
  have "distinct (map uid us')" using wf by (simp add: ids wf_users_iff)
  moreover have "\<forall>x\<in>set us'. required_ok x"
    using wf ok(1) by (auto dest!: mem simp: wf_users_iff d(1) required_ok_encrypt)
  moreover have "\<forall>x\<in>set us'. \<forall>y\<in>set us'. uid y = uid x \<or> \<not> collides y x"
  proof (intro ballI)
    fix x y assume "x \<in> set us'" "y \<in> set us'"
    from mem [OF this(1)] mem [OF this(2)] wf nc uidd
    show "uid y = uid x \<or> \<not> collides y x"
      by (auto simp: wf_users_iff)
  qed
  ultimately show ?thesis by (simp add: wf_users_iff)
qed

lemma signInOrSignUp_wf:
  assumes wf: "wf_users (users w)"
      and call: "signInOrSignUp env w ty oauthId e oauthToken dn av = (r, w')"
  shows "wf_users (users w')"
proof (cases "truthy oauthId")
  case False
  with call wf show ?thesis by (simp add: signIn_no_oauthId)
next
  case True
  then obtain oid where oid: "oauthId = Some oid" "oid \<noteq> []" by (auto dest: truthy_Some)
  show ?thesis
  proof (cases "findOne (matches ty e oid) (users w)")
    case (Some user)
    note found = this
    show ?thesis
    proof (cases "isEmpty oauthToken")
      case True
      with call oid found wf show ?thesis by (simp add: signInOrSignUp_def)
    next
      case False
      note ex = call [unfolded oid(1) signIn_existing [OF oid(2) found False]]
      show ?thesis
      proof (cases "save False (users w) (mergeOAuth ty oid oauthToken user)")
        case (Inl err)
        with ex wf show ?thesis by simp
      next
        case (Inr q)
        obtain d us' where q: "q = (d, us')" by (cases q)
        from Inr q have "wf_users us'" by (auto intro: save_wf [OF wf])
        with ex Inr q show ?thesis by auto
      qed
    qed
  next
    case None
    note new = call [unfolded oid(1) signIn_new [OF oid(2) None]]
    show ?thesis
    proof (cases "save True (users w) (newOAuthUser env (users w) ty oid e oauthToken dn av)")
      case (Inl err)
      with new wf show ?thesis by simp
    next
      case (Inr q)
      obtain d us' where q: "q = (d, us')" by (cases q)
      from Inr q have wf': "wf_users us'" by (auto intro: save_wf [OF wf])
      obtain r0 w0 where sw: "sendWelcome env (w\<lparr>users := us'\<rparr>) e dn = (r0, w0)"
        by (cases "sendWelcome env (w\<lparr>users := us'\<rparr>) e dn")
      from sendWelcome_users [OF sw] have "users w0 = us'" by simp
      moreover from new Inr q sw have "w' = w0" by (cases r0) simp_all
      ultimately show ?thesis using wf' by simp
    qed
  qed
qed

lemma signUpByEmail_wf:
  assumes wf: "wf_users (users w)"
      and call: "signUpByEmail env w i e = (r, w')"
  shows "wf_users (users w')"
proof (cases "findOneLean (hasEmail e) (users w)")
  case (Some u)
  with call wf show ?thesis by (simp add: signUp_existing)
next
  case None
  note new = call [unfolded signUp_new [OF None]]
  show ?thesis
  proof (cases "save True (users w) (new_User i (now env) e None None (generateSlug env (users w) e) [])")
    case (Inl err)
    with new wf show ?thesis by simp
  next
    case (Inr q)
    obtain d us' where q: "q = (d, us')" by (cases q)
    from Inr q have wf': "wf_users us'" by (auto intro: save_wf [OF wf])
    obtain r0 w0 where sw: "sendWelcome env (w\<lparr>users := us'\<rparr>) e e = (r0, w0)"
      by (cases "sendWelcome env (w\<lparr>users := us'\<rparr>) e e")
    from sendWelcome_users [OF sw] have "users w0 = us'" by simp
    moreover from new Inr q sw have "w' = w0" by (cases r0) simp_all
    ultimately show ?thesis using wf' by simp
  qed
qed

end
